theory Spec2Isabelle
  imports Complex_Main
begin

section \<open>PyMove: convergence cleaning filters and similarity queries\<close>

text \<open>
  A shallow embedding of \<^verbatim>\<open>pymove/preprocessing/filters.py\<close> (the convergence
  engine \<^verbatim>\<open>_clean_gps\<close>, its predicates, \<^verbatim>\<open>clean_id_by_time_max\<close>) and of
  \<^verbatim>\<open>pymove/query/query.py\<close> (\<^verbatim>\<open>range_query\<close>, \<^verbatim>\<open>knn_query\<close>).

  The pandas DataFrame, the feature generators of the move-dataframe classes, the
  outlier detector and the distance measures MEDP/MEDT are not part of these two
  files. A DataFrame is modelled by the part of its behaviour the two files use: an
  ordered list of rows with index labels, label-based \<^verbatim>\<open>drop\<close>, boolean-mask
  selection, \<^verbatim>\<open>shift\<close>, \<^verbatim>\<open>unique\<close>, group sums. The external functions are
  parameters.
\<close>

subsection \<open>float64 values\<close>

text \<open>
  The two files themselves only compare float values and apply \<^verbatim>\<open>nan_to_num\<close>
  to them; no arithmetic on floats is modelled here (the one sum, a pandas group
  sum, is a parameter, see \<open>column_sum\<close>). A finite float is the real number it
  denotes; NaN and the two infinities are separate values with the IEEE comparison
  rules: every comparison with NaN is false.
\<close>

datatype fl = NaN | NInf | Fin real | PInf

fun fl_lt :: "fl \<Rightarrow> fl \<Rightarrow> bool" where
  "fl_lt NaN y = False"
| "fl_lt x NaN = False"
| "fl_lt PInf y = False"
| "fl_lt x NInf = False"
| "fl_lt NInf y = True"
| "fl_lt x PInf = True"
| "fl_lt (Fin a) (Fin b) = (a < b)"

definition fl_gt :: "fl \<Rightarrow> fl \<Rightarrow> bool" where
  "fl_gt x y = fl_lt y x"

definition fl_le :: "fl \<Rightarrow> fl \<Rightarrow> bool" where
  "fl_le x y = (x \<noteq> NaN \<and> y \<noteq> NaN \<and> \<not> fl_lt y x)"

definition DBL_MAX :: real where
  "DBL_MAX = (2 - 1 / 2 ^ 52) * 2 ^ 1023"

text \<open>\<^verbatim>\<open>np.nan_to_num\<close>: NaN becomes 0, the infinities the largest finite doubles.\<close>

fun nan_to_num :: "fl \<Rightarrow> fl" where
  "nan_to_num NaN = Fin 0"
| "nan_to_num PInf = Fin DBL_MAX"
| "nan_to_num NInf = Fin (- DBL_MAX)"
| "nan_to_num (Fin a) = Fin a"

subsection \<open>Rows and frames\<close>

datatype error = ValueError | KeyError | IndexError

text \<open>The three motion-feature column labels of \<^verbatim>\<open>pymove.utils.constants\<close>.\<close>

datatype feature = DIST_TO_PREV | TIME_TO_PREV | SPEED_TO_PREV

text \<open>
  One row of a trajectory DataFrame: its index label, the value of the id column
  (the column named by \<^verbatim>\<open>label_id\<close> / \<^verbatim>\<open>_id\<close> / \<^verbatim>\<open>id_\<close>), the point, and the
  derived columns. Identifiers are strings (the KNN sentinel \<^verbatim>\<open>'empty'\<close> is one).
  \<open>datetime\<close> is the timestamp in seconds.
\<close>

record point =
  idx :: int
  traj_id :: string
  lat :: real
  lon :: real
  datetime :: int
  dist_to_prev :: fl
  time_to_prev :: fl
  speed_to_prev :: fl
  outlier :: bool

text \<open>
  A frame: the name of its index (\<^verbatim>\<open>df.index.name\<close>), the labels of its
  columns, the motion-feature columns it has (\<^verbatim>\<open>DIST_TO_PREV in move_data\<close>; their
  labels are constants of \<^verbatim>\<open>pymove.utils.constants\<close>, so membership is kept apart
  from the labels), and its rows in order. The values a row carries for a feature
  column the frame does not have are never read.
\<close>

record frame =
  index_name :: "string option"
  columns :: "string list"
  feats :: "feature list"
  rows :: "point list"

fun col :: "feature \<Rightarrow> point \<Rightarrow> fl" where
  "col DIST_TO_PREV r = dist_to_prev r"
| "col TIME_TO_PREV r = time_to_prev r"
| "col SPEED_TO_PREV r = speed_to_prev r"

text \<open>\<^verbatim>\<open>move_data[label]\<close>: the column, or KeyError when the frame has no such column.\<close>

definition getcol :: "frame \<Rightarrow> feature \<Rightarrow> error + fl list" where
  "getcol md c = (if c \<in> set (feats md) then Inr (map (col c) (rows md)) else Inl KeyError)"

text \<open>\<^verbatim>\<open>move_data[mask]\<close>: the rows at which the boolean mask is true.\<close>

definition mask_select :: "frame \<Rightarrow> bool list \<Rightarrow> frame" where
  "mask_select md m = md\<lparr>rows := map fst (filter snd (zip (rows md) m))\<rparr>"

text \<open>\<^verbatim>\<open>series.shift(1)\<close>: every value moves one position down; the first is NaN.\<close>

definition shift1 :: "fl list \<Rightarrow> fl list" where
  "shift1 xs = take (length xs) (NaN # xs)"

text \<open>
  \<^verbatim>\<open>move_data.drop(index=labels)\<close>: removes every row whose index label is among
  \<open>labels\<close>; pandas raises KeyError when one of the labels is not in the index.
\<close>

definition drop_index :: "frame \<Rightarrow> int list \<Rightarrow> error + frame" where
  "drop_index md labels =
     (if list_all (\<lambda>l. l \<in> set (map idx (rows md))) labels
      then Inr (md\<lparr>rows := filter (\<lambda>r. idx r \<notin> set labels) (rows md)\<rparr>)
      else Inl KeyError)"

text \<open>
  \<^verbatim>\<open>move_data.reset_index(inplace=True)\<close>: the old index becomes a column, named
  after the index (or \<^verbatim>\<open>'index'\<close>, or \<^verbatim>\<open>'level_0'\<close> when that is taken, for an
  index without a name); pandas raises ValueError when the frame already has a
  column of that label, and then leaves the frame as it was. Otherwise the rows are
  relabelled 0, 1, 2, ... and the index loses its name. (The values of the new
  column are not kept: no function here reads them.)
\<close>

definition reset_index :: "frame \<Rightarrow> error + frame" where
  "reset_index md =
     (let label = (case index_name md of
                     Some name \<Rightarrow> name
                   | None \<Rightarrow> if ''index'' \<in> set (columns md) then ''level_0'' else ''index'')
      in if label \<in> set (columns md) then Inl ValueError
         else Inr (md\<lparr>index_name := None,
                      columns := label # columns md,
                      rows := map (\<lambda>(i, r). r\<lparr>idx := int i\<rparr>)
                                (zip [0 ..< length (rows md)] (rows md))\<rparr>))"

subsection \<open>Single-pass predicates\<close>

text \<open>
  \<^verbatim>\<open>kwargs\<close> of \<^verbatim>\<open>_clean_gps\<close>: \<^verbatim>\<open>arg1\<close> is a column label for the threshold
  predicates and the jump coefficient for the outlier predicate.
\<close>

datatype arg = Label feature | Number fl

record kwargs =
  arg1 :: arg
  arg2 :: fl
  outliers :: bool

type_synonym filter_fn = "frame \<Rightarrow> arg \<Rightarrow> fl \<Rightarrow> error + frame"

text \<open>\<^verbatim>\<open>move_data[move_data[kwargs['arg1']] <= kwargs['arg2']]\<close>\<close>

fun filter_single_by_max :: filter_fn where
  "filter_single_by_max move_data (Label c) v =
     (case getcol move_data c of
        Inl e \<Rightarrow> Inl e
      | Inr xs \<Rightarrow> Inr (mask_select move_data (map (\<lambda>x. fl_le x v) xs)))"
| "filter_single_by_max move_data (Number a) v = Inl KeyError"

text \<open>
  \<^verbatim>\<open>filter_ = (nan_to_num(col.shift(1)) > arg2) | (nan_to_num(col) > arg2)\<close>,
  then \<^verbatim>\<open>move_data[filter_]\<close>.
\<close>

fun filter_speed_max_radius :: filter_fn where
  "filter_speed_max_radius move_data (Label c) v =
     (case getcol move_data c of
        Inl e \<Rightarrow> Inl e
      | Inr xs \<Rightarrow>
          Inr (mask_select move_data
                 (map2 (\<lambda>p x. fl_gt (nan_to_num p) v \<or> fl_gt (nan_to_num x) v) (shift1 xs) xs)))"
| "filter_speed_max_radius move_data (Number a) v = Inl KeyError"

subsection \<open>The convergence engine\<close>

text \<open>
  \<^verbatim>\<open>_filter_data\<close>: calls the filtering function; for the outlier predicate keeps
  the rows whose \<^verbatim>\<open>OUTLIER\<close> column is true. Returns the selected rows and their
  number.
\<close>

definition filter_data :: "frame \<Rightarrow> filter_fn \<Rightarrow> kwargs \<Rightarrow> error + frame \<times> nat" where
  "filter_data move_data f kw =
     (case f move_data (arg1 kw) (arg2 kw) of
        Inl e \<Rightarrow> Inl e
      | Inr fdp \<Rightarrow>
          (let filter_data_points =
                 (if outliers kw then fdp\<lparr>rows := filter outlier (rows fdp)\<rparr> else fdp)
           in Inr (filter_data_points, length (rows filter_data_points))))"

text \<open>
  The \<^verbatim>\<open>while rows_to_drop > 0\<close> loop of \<^verbatim>\<open>_clean_gps\<close>, with its loop variables
  \<^verbatim>\<open>move_data\<close>, \<^verbatim>\<open>filter_data_points\<close>, \<^verbatim>\<open>rows_to_drop\<close>. The frame is updated in
  place, so the result is the state of the frame when the loop is left, with the
  exception that left it, if any. \<open>None\<close> would be a loop that never ends. The
  logging and the counter \<^verbatim>\<open>sum_drop\<close>, which only feeds the log, are left out.
\<close>

partial_function (option) clean_gps_loop ::
  "filter_fn \<Rightarrow> kwargs \<Rightarrow> frame \<Rightarrow> frame \<Rightarrow> nat \<Rightarrow> (frame \<times> error option) option"
where
  "clean_gps_loop f kw move_data filter_data_points rows_to_drop =
     (if rows_to_drop > 0 then
        (case drop_index move_data (map idx (rows filter_data_points)) of
           Inl e \<Rightarrow> Some (move_data, Some e)
         | Inr move_data' \<Rightarrow>
             (case filter_data move_data' f kw of
                Inl e \<Rightarrow> Some (move_data', Some e)
              | Inr (filter_data_points', rows_to_drop') \<Rightarrow>
                  clean_gps_loop f kw move_data' filter_data_points' rows_to_drop'))
      else Some (move_data, None))"

definition clean_gps :: "frame \<Rightarrow> filter_fn \<Rightarrow> kwargs \<Rightarrow> (frame \<times> error option) option" where
  "clean_gps move_data0 f kw =
     (case (if index_name move_data0 \<noteq> None then reset_index move_data0
            else Inr move_data0) of
        Inl e \<Rightarrow> Some (move_data0, Some e)
      | Inr move_data \<Rightarrow>
          (case filter_data move_data f kw of
             Inl e \<Rightarrow> Some (move_data, Some e)
           | Inr (filter_data_points, rows_to_drop) \<Rightarrow>
               clean_gps_loop f kw move_data filter_data_points rows_to_drop))"

subsection \<open>The four convergence cleaning functions\<close>

text \<open>
  The feature generators are methods of the move-dataframe classes and the outlier
  detector is \<^verbatim>\<open>pymove.semantic.semantic.outliers\<close>; none of them is in the two
  files, so they are parameters. A generator updates the frame it is called on.
  \<open>column_sum\<close> is the sum pandas computes for the values of one group of a
  float64 column (\<^verbatim>\<open>groupby(...).agg({c: 'sum'})\<close>): it skips NaN and adds in
  float64, with rounding, so it is a parameter as well and not a sum of reals.
\<close>

record provider =
  generate_dist_features :: "frame \<Rightarrow> frame"
  generate_dist_time_speed_features :: "frame \<Rightarrow> frame"
  outliers_fn :: filter_fn
  column_sum :: "fl list \<Rightarrow> fl"

text \<open>
  What a cleaning function leaves behind: the caller's frame after the call, and
  either the exception raised or the value returned (\<^verbatim>\<open>None\<close> when
  \<^verbatim>\<open>inplace\<close>). Without \<^verbatim>\<open>inplace\<close> the function works on a copy and the
  caller's frame stays as it was.
\<close>

definition finish ::
  "bool \<Rightarrow> frame \<Rightarrow> frame \<Rightarrow> error option \<Rightarrow> frame \<times> (error + frame option)" where
  "finish inplace caller move_data exc =
     (if inplace then move_data else caller,
      case exc of
        Some e \<Rightarrow> Inl e
      | None \<Rightarrow> Inr (if inplace then None else Some move_data))"

definition clean_gps_jumps_by_distance ::
  "provider \<Rightarrow> frame \<Rightarrow> fl \<Rightarrow> fl \<Rightarrow> bool \<Rightarrow> (frame \<times> (error + frame option)) option" where
  "clean_gps_jumps_by_distance P move_data0 jump_coefficient threshold inplace =
     (let move_data =
            (if DIST_TO_PREV \<notin> set (feats move_data0)
             then generate_dist_features P move_data0 else move_data0)
      in map_option (\<lambda>(md, exc). finish inplace move_data0 md exc)
           (clean_gps move_data (outliers_fn P)
              \<lparr>arg1 = Number jump_coefficient, arg2 = threshold, outliers = True\<rparr>))"

definition clean_gps_nearby_points_by_distances ::
  "provider \<Rightarrow> frame \<Rightarrow> fl \<Rightarrow> bool \<Rightarrow> (frame \<times> (error + frame option)) option" where
  "clean_gps_nearby_points_by_distances P move_data0 radius_area inplace =
     (let move_data =
            (if DIST_TO_PREV \<notin> set (feats move_data0)
             then generate_dist_features P move_data0 else move_data0)
      in map_option (\<lambda>(md, exc). finish inplace move_data0 md exc)
           (clean_gps move_data filter_single_by_max
              \<lparr>arg1 = Label DIST_TO_PREV, arg2 = radius_area, outliers = False\<rparr>))"

definition clean_gps_nearby_points_by_speed ::
  "provider \<Rightarrow> frame \<Rightarrow> fl \<Rightarrow> bool \<Rightarrow> (frame \<times> (error + frame option)) option" where
  "clean_gps_nearby_points_by_speed P move_data0 speed_radius inplace =
     (let move_data =
            (if SPEED_TO_PREV \<notin> set (feats move_data0)
             then generate_dist_time_speed_features P move_data0 else move_data0)
      in map_option (\<lambda>(md, exc). finish inplace move_data0 md exc)
           (clean_gps move_data filter_single_by_max
              \<lparr>arg1 = Label SPEED_TO_PREV, arg2 = speed_radius, outliers = False\<rparr>))"

definition clean_gps_speed_max_radius ::
  "provider \<Rightarrow> frame \<Rightarrow> fl \<Rightarrow> bool \<Rightarrow> (frame \<times> (error + frame option)) option" where
  "clean_gps_speed_max_radius P move_data0 speed_max inplace =
     (let move_data =
            (if SPEED_TO_PREV \<notin> set (feats move_data0)
             then generate_dist_time_speed_features P move_data0 else move_data0)
      in map_option (\<lambda>(md, exc). finish inplace move_data0 md exc)
           (clean_gps move_data filter_speed_max_radius
              \<lparr>arg1 = Label SPEED_TO_PREV, arg2 = speed_max, outliers = False\<rparr>))"

subsection \<open>The max-time-by-id filter\<close>

text \<open>\<^verbatim>\<open>series.unique()\<close>: the distinct values in order of first appearance.\<close>

fun unique :: "'a list \<Rightarrow> 'a list" where
  "unique [] = []"
| "unique (x # xs) = x # unique (removeAll x xs)"

text \<open>
  \<^verbatim>\<open>move_data.groupby([label_id], as_index=False).agg({c: 'sum'})\<close>: one row
  (id, sum) for each id. pandas lists the groups sorted by id; the code only uses
  the set of ids of the selected groups, so the groups are listed here in order of
  first appearance.
\<close>

definition groupby_sum ::
  "provider \<Rightarrow> frame \<Rightarrow> feature \<Rightarrow> error + (string \<times> fl) list" where
  "groupby_sum P md c =
     (if c \<in> set (feats md)
      then Inr (map (\<lambda>i. (i, column_sum P
                                (map (col c) (filter (\<lambda>r. traj_id r = i) (rows md)))))
                  (unique (map traj_id (rows md))))
      else Inl KeyError)"

text \<open>
  \<open>time_max\<close> is a finite number: it is printed into the query string
  \<^verbatim>\<open>'time_to_prev < {time_max}'\<close>.
\<close>

definition clean_id_by_time_max ::
  "provider \<Rightarrow> frame \<Rightarrow> real \<Rightarrow> bool \<Rightarrow> frame \<times> (error + frame option)" where
  "clean_id_by_time_max P move_data0 time_max inplace =
     (let move_data =
            (if TIME_TO_PREV \<notin> set (feats move_data0)
             then generate_dist_time_speed_features P move_data0 else move_data0)
      in case groupby_sum P move_data TIME_TO_PREV of
           Inl e \<Rightarrow> finish inplace move_data0 move_data (Some e)
         | Inr totals \<Rightarrow>
             (let move_dataid_drop = filter (\<lambda>(i, s). fl_lt s (Fin time_max)) totals
              in if length move_dataid_drop > 0 then
                   (let filter' = map (\<lambda>r. traj_id r \<in> set (map fst move_dataid_drop))
                                    (rows move_data);
                        labels = map idx (rows (mask_select move_data filter'))
                    in case drop_index move_data labels of
                         Inl e \<Rightarrow> finish inplace move_data0 move_data (Some e)
                       | Inr move_data' \<Rightarrow> finish inplace move_data0 move_data' None)
                 else finish inplace move_data0 move_data None))"

subsection \<open>Similarity queries\<close>

text \<open>
  \<^verbatim>\<open>pymove.utils.constants\<close> and \<^verbatim>\<open>pymove.utils.distances\<close> are not in the two
  files: the selector constants \<^verbatim>\<open>MEDP\<close>, \<^verbatim>\<open>MEDT\<close>, the column label
  \<^verbatim>\<open>TRAJ_ID\<close> and the two distance measures are parameters. A measure is consumed
  as a function of the two frames that yields a float.
\<close>

record query_env =
  MEDP :: string
  MEDT :: string
  TRAJ_ID :: string
  medp :: "frame \<Rightarrow> frame \<Rightarrow> fl"
  medt :: "frame \<Rightarrow> frame \<Rightarrow> fl"

text \<open>
  The outcome of a query: the caller's two frames after the call, and the exception
  raised or the frame returned. Both queries update only objects of their own
  (the copy \<^verbatim>\<open>result\<close>, the table \<^verbatim>\<open>k_list\<close>).
\<close>

record query_out =
  q_traj :: frame
  q_move_df :: frame
  q_value :: "error + frame"

text \<open>\<^verbatim>\<open>move_df.loc[move_df[_id] == traj_id]\<close>\<close>

definition loc_id :: "frame \<Rightarrow> string \<Rightarrow> frame" where
  "loc_id move_df tid = move_df\<lparr>rows := filter (\<lambda>r. traj_id r = tid) (rows move_df)\<rparr>"

text \<open>\<^verbatim>\<open>result.append(this)\<close>: a new frame, the rows of \<open>this\<close> after those of \<open>result\<close>.\<close>

definition append :: "frame \<Rightarrow> frame \<Rightarrow> frame" where
  "append result this = result\<lparr>rows := rows result @ rows this\<rparr>"

fun range_loop ::
  "(frame \<Rightarrow> frame \<Rightarrow> fl) \<Rightarrow> frame \<Rightarrow> frame \<Rightarrow> fl \<Rightarrow> string list \<Rightarrow> frame \<Rightarrow> frame" where
  "range_loop dist_measure traj move_df min_dist [] result = result"
| "range_loop dist_measure traj move_df min_dist (tid # tids) result =
     (let this = loc_id move_df tid
      in range_loop dist_measure traj move_df min_dist tids
           (if fl_lt (dist_measure traj this) min_dist then append result this else result))"

definition range_query :: "query_env \<Rightarrow> frame \<Rightarrow> frame \<Rightarrow> fl \<Rightarrow> string \<Rightarrow> query_out" where
  "range_query E traj move_df min_dist distance =
     \<lparr>q_traj = traj, q_move_df = move_df,
      q_value =
        (case drop_index traj (map idx (rows traj)) of
           Inl e \<Rightarrow> Inl e
         | Inr result \<Rightarrow>
             if distance = MEDP E then
               Inr (range_loop (medp E) traj move_df min_dist
                      (unique (map traj_id (rows move_df))) result)
             else if distance = MEDT E then
               Inr (range_loop (medt E) traj move_df min_dist
                      (unique (map traj_id (rows move_df))) result)
             else Inl ValueError)\<rparr>"

text \<open>
  The table \<^verbatim>\<open>k_list\<close>: its column \<^verbatim>\<open>'distance'\<close> and its column \<^verbatim>\<open>'traj_id'\<close>.
  The table is created with the columns \<^verbatim>\<open>'distance'\<close> and \<^verbatim>\<open>TRAJ_ID\<close>, the latter
  filled with \<^verbatim>\<open>'empty'\<close>, while the code reads and writes the column
  \<^verbatim>\<open>'traj_id'\<close>. So the column \<^verbatim>\<open>'traj_id'\<close> exists from the start only when the
  constant \<^verbatim>\<open>TRAJ_ID\<close> is that string; otherwise the first assignment creates it
  with missing values (NaN, here \<open>None\<close>) in the other slots, and reading it before
  raises KeyError. (\<^verbatim>\<open>TRAJ_ID\<close> is taken to differ from \<^verbatim>\<open>'distance'\<close>.)
\<close>

record k_list =
  kdistance :: "fl list"
  ktraj_id :: "string option list option"

definition k_list_init :: "query_env \<Rightarrow> nat \<Rightarrow> k_list" where
  "k_list_init E k =
     \<lparr>kdistance = replicate k PInf,
      ktraj_id = (if TRAJ_ID E = ''traj_id'' then Some (replicate k (Some ''empty'')) else None)\<rparr>"

text \<open>
  \<^verbatim>\<open>k_list.loc[n, 'distance'] = this_distance; k_list.loc[n, 'traj_id'] = traj_id\<close>
\<close>

definition set_slot :: "k_list \<Rightarrow> nat \<Rightarrow> fl \<Rightarrow> string \<Rightarrow> k_list" where
  "set_slot kl n this_distance tid =
     \<lparr>kdistance = (kdistance kl)[n := this_distance],
      ktraj_id =
        Some ((case ktraj_id kl of
                 None \<Rightarrow> replicate (length (kdistance kl)) None
               | Some c \<Rightarrow> c)[n := Some tid])\<rparr>"

text \<open>The inner \<^verbatim>\<open>for n in range(k)\<close> with its \<^verbatim>\<open>break\<close>.\<close>

fun scan_slots :: "fl \<Rightarrow> string \<Rightarrow> nat list \<Rightarrow> k_list \<Rightarrow> k_list" where
  "scan_slots this_distance tid [] kl = kl"
| "scan_slots this_distance tid (n # ns) kl =
     (if fl_lt this_distance (kdistance kl ! n) then set_slot kl n this_distance tid
      else scan_slots this_distance tid ns kl)"

text \<open>
  The loop over the candidate ids. \<^verbatim>\<open>traj[id_].values[0]\<close> is evaluated for every
  candidate and raises IndexError when the reference frame has no row.
\<close>

fun knn_loop ::
  "(frame \<Rightarrow> frame \<Rightarrow> fl) \<Rightarrow> frame \<Rightarrow> frame \<Rightarrow> nat \<Rightarrow> string list \<Rightarrow> k_list \<Rightarrow> error + k_list"
where
  "knn_loop dist_measure traj move_df k [] kl = Inr kl"
| "knn_loop dist_measure traj move_df k (tid # tids) kl =
     (case rows traj of
        [] \<Rightarrow> Inl IndexError
      | r0 # rs \<Rightarrow>
          if tid \<noteq> traj_id r0 then
            (let this = loc_id move_df tid;
                 this_distance = dist_measure traj this
             in knn_loop dist_measure traj move_df k tids
                  (scan_slots this_distance tid [0 ..< k] kl))
          else knn_loop dist_measure traj move_df k tids kl)"

text \<open>
  \<^verbatim>\<open>move_df.loc[move_df[id_] == k_list.loc[n, 'traj_id']]\<close>: a missing value
  equals no id.
\<close>

fun loc_cell :: "frame \<Rightarrow> string option \<Rightarrow> frame" where
  "loc_cell move_df None = move_df\<lparr>rows := []\<rparr>"
| "loc_cell move_df (Some tid) = loc_id move_df tid"

fun knn_collect :: "frame \<Rightarrow> k_list \<Rightarrow> nat list \<Rightarrow> frame \<Rightarrow> error + frame" where
  "knn_collect move_df kl [] result = Inr result"
| "knn_collect move_df kl (n # ns) result =
     (case ktraj_id kl of
        None \<Rightarrow> Inl KeyError
      | Some c \<Rightarrow> knn_collect move_df kl ns (append result (loc_cell move_df (c ! n))))"

definition knn_run ::
  "(frame \<Rightarrow> frame \<Rightarrow> fl) \<Rightarrow> frame \<Rightarrow> frame \<Rightarrow> nat \<Rightarrow> k_list \<Rightarrow> error + frame" where
  "knn_run dist_measure traj move_df k kl =
     (case knn_loop dist_measure traj move_df k (unique (map traj_id (rows move_df))) kl of
        Inl e \<Rightarrow> Inl e
      | Inr kl' \<Rightarrow> knn_collect move_df kl' [0 ..< k] traj)"

definition knn_query :: "query_env \<Rightarrow> frame \<Rightarrow> frame \<Rightarrow> nat \<Rightarrow> string \<Rightarrow> query_out" where
  "knn_query E traj move_df k distance =
     \<lparr>q_traj = traj, q_move_df = move_df,
      q_value =
        (let kl = k_list_init E k
         in if distance = MEDP E then knn_run (medp E) traj move_df k kl
            else if distance = MEDT E then knn_run (medt E) traj move_df k kl
            else Inl ValueError)\<rparr>"

subsection \<open>The feature-consistency property\<close>

text \<open>
  Modelled from the spec: the Motion Feature Provider (a method of the
  move-dataframe classes, not in the two files) gives every point the time to the
  previous point of its trajectory, in seconds, and NaN to the first point of each
  trajectory. \<open>expected_time_to_prev\<close> computes that column for the rows as they
  stand, remembering the last timestamp seen for every id.
\<close>

fun expected_time_to_prev :: "(string \<rightharpoonup> int) \<Rightarrow> point list \<Rightarrow> fl list" where
  "expected_time_to_prev seen [] = []"
| "expected_time_to_prev seen (r # rs) =
     (case seen (traj_id r) of
        None \<Rightarrow> NaN
      | Some t \<Rightarrow> Fin (real_of_int (datetime r - t)))
     # expected_time_to_prev (seen(traj_id r \<mapsto> datetime r)) rs"

definition time_features_consistent :: "frame \<Rightarrow> bool" where
  "time_features_consistent md =
     (map time_to_prev (rows md) = expected_time_to_prev Map.empty (rows md))"

subsection \<open>Example data\<close>

definition mk_point :: "int \<Rightarrow> string \<Rightarrow> int \<Rightarrow> fl \<Rightarrow> fl \<Rightarrow> fl \<Rightarrow> point" where
  "mk_point i t d dp tp sp =
     \<lparr>idx = i, traj_id = t, lat = 0, lon = 0, datetime = d,
      dist_to_prev = dp, time_to_prev = tp, speed_to_prev = sp, outlier = False\<rparr>"

definition mk_frame :: "point list \<Rightarrow> frame" where
  "mk_frame rs =
     \<lparr>index_name = None, columns = [''id'', ''lat'', ''lon'', ''datetime''],
      feats = [DIST_TO_PREV, TIME_TO_PREV, SPEED_TO_PREV], rows = rs\<rparr>"

text \<open>
  The sum of a column for the example frames: their time columns hold NaN and whole
  numbers of seconds of at most four digits, which float64 adds without rounding, so
  the sum pandas computes there is the exact sum of the values other than NaN.
\<close>

definition ex_column_sum :: "fl list \<Rightarrow> fl" where
  "ex_column_sum xs = Fin (sum_list (map (\<lambda>x. case x of Fin v \<Rightarrow> v | _ \<Rightarrow> 0) xs))"

text \<open>A provider whose generators are never needed: the example frames have the features.\<close>

definition ex_provider :: provider where
  "ex_provider =
     \<lparr>generate_dist_features = (\<lambda>md. md),
      generate_dist_time_speed_features = (\<lambda>md. md),
      outliers_fn = (\<lambda>md a v. Inr md),
      column_sum = ex_column_sum\<rparr>"

text \<open>
  One trajectory of three points, ten seconds apart: 5 m from the first to the
  second, 20 m from the second to the third.
\<close>

definition ex_track :: frame where
  "ex_track = mk_frame
     [mk_point 0 ''a'' 0 NaN NaN NaN,
      mk_point 1 ''a'' 10 (Fin 5) (Fin 10) (Fin (1/2)),
      mk_point 2 ''a'' 20 (Fin 20) (Fin 10) (Fin 2)]"

text \<open>
  A trajectory \<open>[A, B, C]\<close> with speed 60 from A to B and 10 from B to C, for a
  maximum of 50.
\<close>

definition ex_fast :: frame where
  "ex_fast = mk_frame
     [mk_point 0 ''a'' 0 NaN NaN NaN,
      mk_point 1 ''a'' 10 (Fin 600) (Fin 10) (Fin 60),
      mk_point 2 ''a'' 20 (Fin 100) (Fin 10) (Fin 10)]"

text \<open>
  Two interleaved trajectories: \<open>u\<close> with times 10 s and 20 s to the previous
  point (30 s in all), \<open>v\<close> with 3000 s and 2000 s (5000 s in all).
\<close>

definition ex_times :: frame where
  "ex_times = mk_frame
     [mk_point 0 ''u'' 0 NaN NaN NaN,
      mk_point 1 ''v'' 0 NaN NaN NaN,
      mk_point 2 ''u'' 10 (Fin 5) (Fin 10) (Fin (1/2)),
      mk_point 3 ''v'' 3000 (Fin 5) (Fin 3000) (Fin (1/600)),
      mk_point 4 ''u'' 30 (Fin 5) (Fin 20) (Fin (1/4)),
      mk_point 5 ''v'' 5000 (Fin 5) (Fin 2000) (Fin (1/400))]"

text \<open>
  Two trajectories whose rows carry the index labels 0, 1 and again 0, 1, as after
  concatenating two frames: \<open>u\<close> has 10 s in all, \<open>v\<close> has 5000 s.
\<close>

definition ex_dup_labels :: frame where
  "ex_dup_labels = mk_frame
     [mk_point 0 ''u'' 0 NaN NaN NaN,
      mk_point 1 ''u'' 10 (Fin 5) (Fin 10) (Fin (1/2)),
      mk_point 0 ''v'' 0 NaN NaN NaN,
      mk_point 1 ''v'' 5000 (Fin 5) (Fin 5000) (Fin (1/1000))]"

text \<open>
  Query examples: the measures of the environment read the distance of a
  candidate off its id. \<open>ex_knn_env\<close> has A at 5, B at 2, C at 9, D at 1 and the
  reference R itself at 0; \<open>ex_range_env\<close> has A at 800, B at 1500, C at 950 and R
  at 0.
\<close>

definition dist_by_id :: "(string \<times> real) list \<Rightarrow> frame \<Rightarrow> frame \<Rightarrow> fl" where
  "dist_by_id table traj this =
     (case rows this of
        [] \<Rightarrow> NaN
      | r # rs \<Rightarrow> (case map_of table (traj_id r) of None \<Rightarrow> NaN | Some d \<Rightarrow> Fin d))"

definition ex_knn_env :: query_env where
  "ex_knn_env =
     \<lparr>MEDP = ''MEDP'', MEDT = ''MEDT'', TRAJ_ID = ''id'',
      medp = dist_by_id [(''A'', 5), (''B'', 2), (''C'', 9), (''D'', 1), (''R'', 0)],
      medt = dist_by_id []\<rparr>"

definition ex_range_env :: query_env where
  "ex_range_env =
     \<lparr>MEDP = ''MEDP'', MEDT = ''MEDT'', TRAJ_ID = ''id'',
      medp = dist_by_id [(''A'', 800), (''B'', 1500), (''C'', 950), (''R'', 0)],
      medt = dist_by_id []\<rparr>"

definition ex_ref :: frame where
  "ex_ref = mk_frame [mk_point 0 ''R'' 0 NaN NaN NaN]"

definition ex_knn_cands :: frame where
  "ex_knn_cands = mk_frame
     [mk_point 0 ''A'' 0 NaN NaN NaN,
      mk_point 1 ''B'' 0 NaN NaN NaN,
      mk_point 2 ''C'' 0 NaN NaN NaN,
      mk_point 3 ''D'' 0 NaN NaN NaN]"

definition ex_range_cands :: frame where
  "ex_range_cands = mk_frame
     [mk_point 0 ''A'' 0 NaN NaN NaN,
      mk_point 1 ''B'' 0 NaN NaN NaN,
      mk_point 2 ''A'' 5 NaN NaN NaN,
      mk_point 3 ''C'' 0 NaN NaN NaN]"

text \<open>The same candidates together with the reference trajectory itself.\<close>

definition ex_self_cands :: frame where
  "ex_self_cands = mk_frame
     [mk_point 0 ''A'' 0 NaN NaN NaN,
      mk_point 1 ''B'' 0 NaN NaN NaN,
      mk_point 2 ''A'' 5 NaN NaN NaN,
      mk_point 3 ''C'' 0 NaN NaN NaN,
      mk_point 4 ''R'' 0 NaN NaN NaN]"

text \<open>
  One trajectory of five points, ten seconds apart, with speed 60 into the third
  point and 10 elsewhere; and the frame that is left when its third and fourth rows
  are removed and nothing else is touched.
\<close>

definition ex_jump :: frame where
  "ex_jump = mk_frame
     [mk_point 0 ''a'' 0 NaN NaN NaN,
      mk_point 1 ''a'' 10 (Fin 100) (Fin 10) (Fin 10),
      mk_point 2 ''a'' 20 (Fin 600) (Fin 10) (Fin 60),
      mk_point 3 ''a'' 30 (Fin 100) (Fin 10) (Fin 10),
      mk_point 4 ''a'' 40 (Fin 100) (Fin 10) (Fin 10)]"

definition ex_jump_cleaned :: frame where
  "ex_jump_cleaned = mk_frame
     [mk_point 0 ''a'' 0 NaN NaN NaN,
      mk_point 1 ''a'' 10 (Fin 100) (Fin 10) (Fin 10),
      mk_point 4 ''a'' 40 (Fin 100) (Fin 10) (Fin 10)]"

section \<open>Similarity queries: properties\<close>

lemma drop_index_self: "drop_index md (map idx (rows md)) = Inr (md\<lparr>rows := []\<rparr>)"
  by (simp add: drop_index_def list_all_iff)

lemma knn_loop_error: "knn_loop dm traj mdf k ids kl = Inl e \<Longrightarrow> e = IndexError"
  by (induction ids arbitrary: kl) (auto split: list.splits if_splits simp: Let_def)

lemma knn_collect_error: "knn_collect mdf kl ns res = Inl e \<Longrightarrow> e = KeyError"
  by (induction ns arbitrary: res) (auto split: option.splits)

lemma knn_run_error: "knn_run dm traj mdf k kl \<noteq> Inl ValueError"
  by (auto simp: knn_run_def split: sum.splits dest: knn_loop_error knn_collect_error)

text \<open>
  C8. A selector that is neither \<^verbatim>\<open>MEDP\<close> nor \<^verbatim>\<open>MEDT\<close> makes both queries raise
  ValueError, whatever the frames and the measures are (no candidate is looked
  at), and the caller's frames are as before; with \<^verbatim>\<open>MEDP\<close> or \<^verbatim>\<open>MEDT\<close> neither
  query raises ValueError.
\<close>

theorem query_invalid_measure:
  "(distance \<noteq> MEDP E \<and> distance \<noteq> MEDT E \<longrightarrow>
      range_query E traj move_df min_dist distance =
        \<lparr>q_traj = traj, q_move_df = move_df, q_value = Inl ValueError\<rparr> \<and>
      knn_query E traj move_df k distance =
        \<lparr>q_traj = traj, q_move_df = move_df, q_value = Inl ValueError\<rparr>) \<and>
   (distance = MEDP E \<or> distance = MEDT E \<longrightarrow>
      q_value (range_query E traj move_df min_dist distance) \<noteq> Inl ValueError \<and>
      q_value (knn_query E traj move_df k distance) \<noteq> Inl ValueError)"
  by (simp add: range_query_def knn_query_def drop_index_self knn_run_error)

theorem query_invalid_measure_witness:
  "range_query ex_range_env ex_ref ex_range_cands (Fin 1000) ''DTW'' =
     \<lparr>q_traj = ex_ref, q_move_df = ex_range_cands, q_value = Inl ValueError\<rparr> \<and>
   knn_query ex_range_env ex_ref ex_range_cands 2 ''DTW'' =
     \<lparr>q_traj = ex_ref, q_move_df = ex_range_cands, q_value = Inl ValueError\<rparr> \<and>
   q_value (range_query ex_range_env ex_ref ex_range_cands (Fin 1000) ''MEDP'') \<noteq> Inl ValueError \<and>
   q_value (knn_query ex_range_env ex_ref ex_range_cands 2 ''MEDT'') \<noteq> Inl ValueError"
  using query_invalid_measure [of "''DTW''" ex_range_env ex_ref ex_range_cands "Fin 1000" 2]
    query_invalid_measure [of "''MEDP''" ex_range_env ex_ref ex_range_cands "Fin 1000" 2]
    query_invalid_measure [of "''MEDT''" ex_range_env ex_ref ex_range_cands "Fin 1000" 2]
  by (simp add: ex_range_env_def)

lemma set_unique: "set (unique xs) = set xs"
  by (induction xs rule: unique.induct) auto

lemma distinct_unique: "distinct (unique xs)"
  by (induction xs rule: unique.induct) (auto simp: set_unique)

lemma unique_snoc:
  "unique (xs @ [x]) = (if x \<in> set xs then unique xs else unique xs @ [x])"
  by (induction xs rule: unique.induct) auto

lemma range_loop_eq:
  "range_loop dm traj mdf min_dist ids result =
     result\<lparr>rows := rows result @
        concat (map (\<lambda>tid. filter (\<lambda>r. traj_id r = tid) (rows mdf))
                  (filter (\<lambda>tid. fl_lt (dm traj (loc_id mdf tid)) min_dist) ids))\<rparr>"
  by (induction ids arbitrary: result) (auto simp: Let_def append_def loc_id_def)

lemma range_query_value:
  "distance = MEDP E \<or> distance = MEDT E \<Longrightarrow>
   q_value (range_query E traj move_df min_dist distance) =
     Inr (traj\<lparr>rows :=
       concat (map (\<lambda>tid. filter (\<lambda>r. traj_id r = tid) (rows move_df))
         (filter (\<lambda>tid. fl_lt ((if distance = MEDP E then medp E else medt E)
                                 traj (loc_id move_df tid)) min_dist)
            (unique (map traj_id (rows move_df)))))\<rparr>)"
  by (auto simp: range_query_def drop_index_self range_loop_eq)

text \<open>
  C5. With a valid selector, \<^verbatim>\<open>range_query\<close> returns the reference frame's
  columns with these rows: for every id of the candidate frame, taken once and in
  order of first appearance, all rows of that id if the measured distance to the
  reference is strictly below \<^verbatim>\<open>min_dist\<close>, and none otherwise, concatenated in
  that order. The visit order has every id of the frame exactly once, and an id is
  appended to it when it is first seen. The instance (A at 800, B at 1500, C at 950,
  \<^verbatim>\<open>min_dist\<close> 1000, rows in the order A, B, A, C) gives the rows of A, then of C.
\<close>

theorem range_query_result:
  "distance = MEDP E \<or> distance = MEDT E \<Longrightarrow>
   q_value (range_query E traj move_df min_dist distance) =
     Inr (traj\<lparr>rows :=
       concat (map (\<lambda>tid. filter (\<lambda>r. traj_id r = tid) (rows move_df))
         (filter (\<lambda>tid. fl_lt ((if distance = MEDP E then medp E else medt E)
                                 traj (loc_id move_df tid)) min_dist)
            (unique (map traj_id (rows move_df)))))\<rparr>) \<and>
   distinct (unique (map traj_id (rows move_df))) \<and>
   set (unique (map traj_id (rows move_df))) = traj_id ` set (rows move_df) \<and>
   unique (ids @ [tid]) = (if tid \<in> set ids then unique ids else unique ids @ [tid])"
  by (simp add: range_query_value distinct_unique set_unique unique_snoc)

theorem range_query_result_witness:
  "q_value (range_query ex_range_env ex_ref ex_range_cands (Fin 1000) ''MEDP'') =
     Inr (mk_frame [mk_point 0 ''A'' 0 NaN NaN NaN, mk_point 2 ''A'' 5 NaN NaN NaN,
                    mk_point 3 ''C'' 0 NaN NaN NaN])"
  using range_query_result
    [of "''MEDP''" ex_range_env ex_ref ex_range_cands "Fin 1000" "[]" "''A''"]
  by (simp add: ex_range_env_def ex_ref_def ex_range_cands_def mk_frame_def mk_point_def
      dist_by_id_def loc_id_def)

lemma knn_loop_skip_own:
  "rows traj = r0 # rs \<Longrightarrow>
   knn_loop dm traj mdf k ids kl = knn_loop dm traj mdf k (removeAll (traj_id r0) ids) kl"
  by (induction ids arbitrary: kl) (auto simp: Let_def)

text \<open>
  C10. \<^verbatim>\<open>range_query\<close> has no self-exclusion: with a valid selector, when the
  distance measured for the rows of the candidate frame that carry the reference's
  own id (the id of its first row) is strictly below \<^verbatim>\<open>min_dist\<close>, every such row
  is in the result. \<^verbatim>\<open>knn_query\<close>'s candidate loop, on the contrary, does for the
  candidate ids what it does for the candidate ids without the reference's own id.
  The instance has the reference trajectory R among the candidates at distance 0,
  with \<^verbatim>\<open>min_dist\<close> 1000.
\<close>

theorem range_query_no_self_exclusion:
  assumes "distance = MEDP E \<or> distance = MEDT E"
    and "rows traj = r0 # rs"
    and "fl_lt ((if distance = MEDP E then medp E else medt E) traj
                  (loc_id move_df (traj_id r0))) min_dist"
  shows "(\<exists>res. q_value (range_query E traj move_df min_dist distance) = Inr res \<and>
            (\<forall>r \<in> set (rows move_df). traj_id r = traj_id r0 \<longrightarrow> r \<in> set (rows res))) \<and>
         knn_loop dm traj move_df k (unique (map traj_id (rows move_df))) kl =
           knn_loop dm traj move_df k
             (removeAll (traj_id r0) (unique (map traj_id (rows move_df)))) kl"
proof
  show "\<exists>res. q_value (range_query E traj move_df min_dist distance) = Inr res \<and>
            (\<forall>r \<in> set (rows move_df). traj_id r = traj_id r0 \<longrightarrow> r \<in> set (rows res))"
    unfolding range_query_value [OF assms(1)] using assms(3)
    by (auto simp: set_unique intro: rev_image_eqI)
  show "knn_loop dm traj move_df k (unique (map traj_id (rows move_df))) kl =
           knn_loop dm traj move_df k
             (removeAll (traj_id r0) (unique (map traj_id (rows move_df)))) kl"
    by (rule knn_loop_skip_own [OF assms(2)])
qed

theorem range_query_no_self_exclusion_witness:
  "(\<exists>res. q_value (range_query ex_range_env ex_ref ex_self_cands (Fin 1000) ''MEDP'') = Inr res \<and>
      mk_point 4 ''R'' 0 NaN NaN NaN \<in> set (rows res)) \<and>
   knn_loop (medp ex_range_env) ex_ref ex_self_cands 2 [''A'', ''B'', ''C'', ''R'']
     (k_list_init ex_range_env 2) =
   knn_loop (medp ex_range_env) ex_ref ex_self_cands 2 [''A'', ''B'', ''C'']
     (k_list_init ex_range_env 2)"
proof -
  have h1: "''MEDP'' = MEDP ex_range_env \<or> ''MEDP'' = MEDT ex_range_env"
    by (simp add: ex_range_env_def)
  have h2: "rows ex_ref = mk_point 0 ''R'' 0 NaN NaN NaN # []"
    by (simp add: ex_ref_def mk_frame_def)
  have h3: "fl_lt ((if ''MEDP'' = MEDP ex_range_env then medp ex_range_env else medt ex_range_env)
       ex_ref (loc_id ex_self_cands (traj_id (mk_point 0 ''R'' 0 NaN NaN NaN)))) (Fin 1000)"
    by (simp add: ex_range_env_def ex_self_cands_def mk_frame_def mk_point_def
        dist_by_id_def loc_id_def)
  have u: "unique (map traj_id (rows ex_self_cands)) = [''A'', ''B'', ''C'', ''R'']"
    by (simp add: ex_self_cands_def mk_frame_def mk_point_def)
  have m: "mk_point 4 ''R'' 0 NaN NaN NaN \<in> set (rows ex_self_cands)"
    by (simp add: ex_self_cands_def mk_frame_def)
  have t: "traj_id (mk_point 4 ''R'' 0 NaN NaN NaN) = traj_id (mk_point 0 ''R'' 0 NaN NaN NaN)"
    by (simp add: mk_point_def)
  from range_query_no_self_exclusion
    [OF h1 h2 h3, of "medp ex_range_env" 2 "k_list_init ex_range_env 2"]
  show ?thesis unfolding u using m t by (auto simp: mk_point_def)
qed

lemma scan_slots_none:
  "\<forall>j. m \<le> j \<and> j < k \<longrightarrow> \<not> fl_lt d (kdistance kl ! j) \<Longrightarrow> scan_slots d tid [m ..< k] kl = kl"
proof (induction "k - m" arbitrary: m)
  case 0
  then show ?case by simp
next
  case (Suc x)
  then have "m < k" by simp
  then have "[m ..< k] = m # [Suc m ..< k]" by (simp add: upt_conv_Cons)
  moreover have "\<not> fl_lt d (kdistance kl ! m)" using Suc.prems \<open>m < k\<close> by simp
  moreover have "scan_slots d tid [Suc m ..< k] kl = kl"
    using Suc.hyps(1) [of "Suc m"] Suc.hyps(2) Suc.prems by simp
  ultimately show ?case by simp
qed

lemma scan_slots_first:
  "m \<le> n \<Longrightarrow> n < k \<Longrightarrow> fl_lt d (kdistance kl ! n) \<Longrightarrow>
   \<forall>j. m \<le> j \<and> j < n \<longrightarrow> \<not> fl_lt d (kdistance kl ! j) \<Longrightarrow>
   scan_slots d tid [m ..< k] kl = set_slot kl n d tid"
proof (induction "n - m" arbitrary: m)
  case 0
  then have "m = n" by simp
  with 0 show ?case by (simp add: upt_conv_Cons)
next
  case (Suc x)
  then have "m < n" by simp
  then have "[m ..< k] = m # [Suc m ..< k]" using Suc.prems by (simp add: upt_conv_Cons)
  moreover have "\<not> fl_lt d (kdistance kl ! m)" using Suc.prems \<open>m < n\<close> by simp
  moreover have "scan_slots d tid [Suc m ..< k] kl = set_slot kl n d tid"
    using Suc.hyps(1) [of "Suc m"] Suc.hyps(2) Suc.prems \<open>m < n\<close> by simp
  ultimately show ?case by simp
qed

lemma ex_knn_final:
  "knn_loop (medp ex_knn_env) ex_ref ex_knn_cands 2 (unique (map traj_id (rows ex_knn_cands)))
     (k_list_init ex_knn_env 2) =
   Inr \<lparr>kdistance = [Fin 1, Fin 9], ktraj_id = Some [Some ''D'', Some ''C'']\<rparr>"
  by (simp add: ex_knn_env_def ex_ref_def ex_knn_cands_def mk_frame_def mk_point_def
      dist_by_id_def loc_id_def k_list_init_def set_slot_def upt_conv_Cons numeral_2_eq_2)

text \<open>
  What the candidate loop does: it starts from \<open>k\<close> slots of infinite distance,
  skips a candidate id equal to the id of the reference's first row, and for any
  other candidate scans the slots in order. If no slot has a distance strictly above
  the candidate's, the list is unchanged; otherwise the first such slot \<open>n\<close> gets
  the candidate's distance and id, and no other slot changes: what the slot held is
  lost, it is not moved to a later slot.
\<close>

lemma knn_scan_rule:
  assumes "rows traj = r0 # rs" and "length (kdistance kl) = k"
  shows
   "kdistance (k_list_init E k) = replicate k PInf \<and>
    knn_loop dm traj mdf k (traj_id r0 # tids) kl = knn_loop dm traj mdf k tids kl \<and>
    (tid \<noteq> traj_id r0 \<longrightarrow>
       knn_loop dm traj mdf k (tid # tids) kl =
       knn_loop dm traj mdf k tids (scan_slots (dm traj (loc_id mdf tid)) tid [0 ..< k] kl)) \<and>
    ((\<forall>j<k. \<not> fl_lt d (kdistance kl ! j)) \<longrightarrow> scan_slots d tid [0 ..< k] kl = kl) \<and>
    (\<forall>n<k. fl_lt d (kdistance kl ! n) \<and> (\<forall>j<n. \<not> fl_lt d (kdistance kl ! j)) \<longrightarrow>
       scan_slots d tid [0 ..< k] kl = set_slot kl n d tid \<and>
       kdistance (set_slot kl n d tid) = (kdistance kl)[n := d] \<and>
       ktraj_id (set_slot kl n d tid) =
         Some ((case ktraj_id kl of None \<Rightarrow> replicate k None | Some c \<Rightarrow> c)[n := Some tid]))"
proof -
  have a: "kdistance (k_list_init E k) = replicate k PInf"
    by (simp add: k_list_init_def)
  have b: "knn_loop dm traj mdf k (traj_id r0 # tids) kl = knn_loop dm traj mdf k tids kl"
    using assms(1) by simp
  have c: "tid \<noteq> traj_id r0 \<longrightarrow>
       knn_loop dm traj mdf k (tid # tids) kl =
       knn_loop dm traj mdf k tids (scan_slots (dm traj (loc_id mdf tid)) tid [0 ..< k] kl)"
    using assms(1) by (simp add: Let_def)
  have d: "(\<forall>j<k. \<not> fl_lt d (kdistance kl ! j)) \<longrightarrow> scan_slots d tid [0 ..< k] kl = kl"
    using scan_slots_none [of 0 k d kl tid] by simp
  have e: "\<forall>n<k. fl_lt d (kdistance kl ! n) \<and> (\<forall>j<n. \<not> fl_lt d (kdistance kl ! j)) \<longrightarrow>
       scan_slots d tid [0 ..< k] kl = set_slot kl n d tid \<and>
       kdistance (set_slot kl n d tid) = (kdistance kl)[n := d] \<and>
       ktraj_id (set_slot kl n d tid) =
         Some ((case ktraj_id kl of None \<Rightarrow> replicate k None | Some c \<Rightarrow> c)[n := Some tid])"
    using scan_slots_first [of 0 _ k d kl tid] assms(2) by (auto simp: set_slot_def)
  from a b c d e show ?thesis by blast
qed

text \<open>
  C3. For the candidates A (5), B (2), C (9), D (1), visited in this order with
  \<open>k = 2\<close>, the list \<^verbatim>\<open>knn_query\<close> ends with holds D (1) in slot 0 and C (9) in
  slot 1, not D (1) and B (2): B took slot 0 from A, C took the still empty slot 1,
  and D, scanning from slot 0, overwrote B there, although B at distance 2 is
  closer than C at distance 9, which stays. The two closest candidates, which the
  claim and the docstring (the k neighbouring trajectories closest to the
  trajectory) give, are D and B.
\<close>

theorem knn_evicts_closer_candidate:
  "knn_loop (medp ex_knn_env) ex_ref ex_knn_cands 2 (unique (map traj_id (rows ex_knn_cands)))
     (k_list_init ex_knn_env 2) =
     Inr \<lparr>kdistance = [Fin 1, Fin 9], ktraj_id = Some [Some ''D'', Some ''C'']\<rparr> \<and>
   knn_loop (medp ex_knn_env) ex_ref ex_knn_cands 2 (unique (map traj_id (rows ex_knn_cands)))
     (k_list_init ex_knn_env 2) \<noteq>
     Inr \<lparr>kdistance = [Fin 1, Fin 2], ktraj_id = Some [Some ''D'', Some ''B'']\<rparr> \<and>
   unique (map traj_id (rows ex_knn_cands)) = [''A'', ''B'', ''C'', ''D''] \<and>
   medp ex_knn_env ex_ref (loc_id ex_knn_cands ''A'') = Fin 5 \<and>
   medp ex_knn_env ex_ref (loc_id ex_knn_cands ''B'') = Fin 2 \<and>
   medp ex_knn_env ex_ref (loc_id ex_knn_cands ''C'') = Fin 9 \<and>
   medp ex_knn_env ex_ref (loc_id ex_knn_cands ''D'') = Fin 1"
proof -
  have order: "unique (map traj_id (rows ex_knn_cands)) = [''A'', ''B'', ''C'', ''D'']"
    by (simp add: ex_knn_cands_def mk_frame_def mk_point_def)
  have dists:
    "medp ex_knn_env ex_ref (loc_id ex_knn_cands ''A'') = Fin 5"
    "medp ex_knn_env ex_ref (loc_id ex_knn_cands ''B'') = Fin 2"
    "medp ex_knn_env ex_ref (loc_id ex_knn_cands ''C'') = Fin 9"
    "medp ex_knn_env ex_ref (loc_id ex_knn_cands ''D'') = Fin 1"
    by (simp_all add: ex_knn_env_def ex_knn_cands_def mk_frame_def mk_point_def
        dist_by_id_def loc_id_def)
  from ex_knn_final order dists show ?thesis by simp
qed

text \<open>Whatever \<^verbatim>\<open>knn_query\<close> returns starts with the rows of the reference frame.\<close>

lemma knn_collect_prefix:
  "knn_collect mdf kl ns res = Inr r \<Longrightarrow> take (length (rows res)) (rows r) = rows res"
proof (induction ns arbitrary: res)
  case Nil
  then show ?case by simp
next
  case (Cons n ns)
  then obtain c where c: "ktraj_id kl = Some c"
    by (cases "ktraj_id kl") auto
  with Cons.prems have "knn_collect mdf kl ns (append res (loc_cell mdf (c ! n))) = Inr r"
    by simp
  from Cons.IH [OF this]
  have "take (length (rows res) + length (rows (loc_cell mdf (c ! n)))) (rows r) =
      rows res @ rows (loc_cell mdf (c ! n))"
    by (simp add: append_def)
  then have "take (length (rows res)) (take (length (rows res) + length (rows (loc_cell mdf (c ! n)))) (rows r)) =
      take (length (rows res)) (rows res @ rows (loc_cell mdf (c ! n)))"
    by simp
  then show ?case by (simp add: min_def)
qed

lemma knn_query_prefix:
  "q_value (knn_query E traj move_df k distance) = Inr r \<Longrightarrow>
   take (length (rows traj)) (rows r) = rows traj"
  by (auto simp: knn_query_def knn_run_def Let_def split: if_splits sum.splits
      dest: knn_collect_prefix)

text \<open>
  C6. The frame \<^verbatim>\<open>knn_query\<close> returns starts with the rows of the reference
  trajectory: \<^verbatim>\<open>result = traj.copy()\<close> is not emptied before the rows of the slots
  are appended, as \<^verbatim>\<open>range_query\<close> does. For the reference R and the candidates
  A, B, C, D with \<open>k = 2\<close> the result is the row of R, then D's, then C's.
\<close>

theorem knn_query_includes_reference:
  "q_value (knn_query ex_knn_env ex_ref ex_knn_cands 2 ''MEDP'') =
     Inr (mk_frame [mk_point 0 ''R'' 0 NaN NaN NaN, mk_point 3 ''D'' 0 NaN NaN NaN,
                    mk_point 2 ''C'' 0 NaN NaN NaN])"
proof -
  have sel: "MEDP ex_knn_env = ''MEDP''"
    by (simp add: ex_knn_env_def)
  have collect:
    "knn_collect ex_knn_cands
       \<lparr>kdistance = [Fin 1, Fin 9], ktraj_id = Some [Some ''D'', Some ''C'']\<rparr> [0 ..< 2] ex_ref =
     Inr (mk_frame [mk_point 0 ''R'' 0 NaN NaN NaN, mk_point 3 ''D'' 0 NaN NaN NaN,
                    mk_point 2 ''C'' 0 NaN NaN NaN])"
    by (simp add: ex_ref_def ex_knn_cands_def mk_frame_def mk_point_def loc_id_def
        append_def upt_conv_Cons)
  show ?thesis
    by (simp add: knn_query_def knn_run_def sel ex_knn_final collect)
qed

text \<open>
  When no candidate was ever stored (here the reference is the only trajectory) and
  \<^verbatim>\<open>TRAJ_ID\<close> is not the string \<^verbatim>\<open>'traj_id'\<close>, the column \<^verbatim>\<open>'traj_id'\<close> was never
  created and reading it raises KeyError.
\<close>

lemma knn_no_candidate:
  "q_value (knn_query ex_knn_env ex_ref ex_ref 2 ''MEDP'') = Inl KeyError"
  by (simp add: knn_query_def knn_run_def ex_knn_env_def ex_ref_def mk_frame_def mk_point_def
      loc_id_def append_def upt_conv_Cons k_list_init_def)


section \<open>Convergence cleaning: properties\<close>

lemma drop_index_shrinks:
  assumes "drop_index md ls = Inr md'" and "ls \<noteq> []"
  shows "length (rows md') < length (rows md)"
proof -
  from assms(1) have all: "list_all (\<lambda>l. l \<in> set (map idx (rows md))) ls"
    and md': "md' = md\<lparr>rows := filter (\<lambda>r. idx r \<notin> set ls) (rows md)\<rparr>"
    by (auto simp: drop_index_def split: if_splits)
  from assms(2) obtain l where l: "l \<in> set ls" by (cases ls) auto
  with all have "l \<in> set (map idx (rows md))" by (simp add: list_all_iff)
  then obtain r where r: "r \<in> set (rows md)" "idx r = l" by auto
  with l have "length (filter (\<lambda>r. idx r \<notin> set ls) (rows md)) < length (rows md)"
    by (intro length_filter_less [of r]) auto
  with md' show ?thesis by simp
qed

lemma drop_index_nil: "drop_index md [] = Inr md"
  by (simp add: drop_index_def)

lemma filter_data_count: "filter_data md f kw = Inr (fdp, n) \<Longrightarrow> n = length (rows fdp)"
  by (auto simp: filter_data_def Let_def split: sum.splits if_splits)

lemma loop_from_filter:
  "filter_data md f kw = Inr (fdp, n) \<Longrightarrow>
   \<exists>md' e. clean_gps_loop f kw md fdp n = Some (md', e) \<and>
     length (rows md') \<le> length (rows md) \<and>
     (e = None \<longrightarrow> (\<exists>fdp'. filter_data md' f kw = Inr (fdp', 0))) \<and>
     (0 < n \<longrightarrow> e = None \<longrightarrow> length (rows md') < length (rows md))"
proof (induction md arbitrary: fdp n rule: measure_induct_rule [where f = "\<lambda>md. length (rows md)"])
  case (less md)
  show ?case
  proof (cases "0 < n")
    case False
    with less.prems show ?thesis
      by (subst clean_gps_loop.simps) auto
  next
    case True
    with less.prems have ne: "map idx (rows fdp) \<noteq> []"
      by (auto dest: filter_data_count)
    show ?thesis
    proof (cases "drop_index md (map idx (rows fdp))")
      case (Inl e)
      with True show ?thesis by (subst clean_gps_loop.simps) simp
    next
      case (Inr md1)
      then have shorter: "length (rows md1) < length (rows md)"
        using ne by (rule drop_index_shrinks)
      show ?thesis
      proof (cases "filter_data md1 f kw")
        case (Inl e)
        with True Inr shorter show ?thesis by (subst clean_gps_loop.simps) simp
      next
        case fd: (Inr p)
        obtain fdp1 n1 where p: "p = (fdp1, n1)" by (cases p)
        from less.IH [OF shorter, of fdp1 n1] fd p
        obtain md' e where r: "clean_gps_loop f kw md1 fdp1 n1 = Some (md', e)"
          "length (rows md') \<le> length (rows md1)"
          "e = None \<longrightarrow> (\<exists>fdp'. filter_data md' f kw = Inr (fdp', 0))"
          by auto
        have "clean_gps_loop f kw md fdp n = Some (md', e)"
          using True Inr fd p r(1) by (subst clean_gps_loop.simps) simp
        with r shorter show ?thesis by auto
      qed
    qed
  qed
qed


lemma loop_total: "\<exists>r. clean_gps_loop f kw md fdp n = Some r"
proof (cases "0 < n")
  case False
  then show ?thesis by (subst clean_gps_loop.simps) simp
next
  case True
  show ?thesis
  proof (cases "drop_index md (map idx (rows fdp))")
    case (Inl e)
    with True show ?thesis by (subst clean_gps_loop.simps) simp
  next
    case (Inr md1)
    show ?thesis
    proof (cases "filter_data md1 f kw")
      case (Inl e)
      with True Inr show ?thesis by (subst clean_gps_loop.simps) simp
    next
      case fd: (Inr p)
      obtain fdp1 n1 where p: "p = (fdp1, n1)" by (cases p)
      from loop_from_filter [of md1 f kw fdp1 n1] fd p
      obtain r where "clean_gps_loop f kw md1 fdp1 n1 = Some r" by auto
      then show ?thesis using True Inr fd p by (subst clean_gps_loop.simps) simp
    qed
  qed
qed

lemma loop_progress:
  assumes "rows fdp \<noteq> []"
  shows "clean_gps_loop f kw md fdp (length (rows fdp)) \<noteq> Some (md, None)"
proof -
  from assms have pos: "0 < length (rows fdp)" and ne: "map idx (rows fdp) \<noteq> []" by simp_all
  show ?thesis
  proof (cases "drop_index md (map idx (rows fdp))")
    case (Inl e)
    with pos show ?thesis by (subst clean_gps_loop.simps) simp
  next
    case (Inr md1)
    then have shorter: "length (rows md1) < length (rows md)"
      using ne by (rule drop_index_shrinks)
    show ?thesis
    proof (cases "filter_data md1 f kw")
      case (Inl e)
      with pos Inr show ?thesis by (subst clean_gps_loop.simps) simp
    next
      case fd: (Inr p)
      obtain fdp1 n1 where p: "p = (fdp1, n1)" by (cases p)
      from loop_from_filter [of md1 f kw fdp1 n1] fd p
      obtain md' e where r: "clean_gps_loop f kw md1 fdp1 n1 = Some (md', e)"
        "length (rows md') \<le> length (rows md1)" by auto
      have "clean_gps_loop f kw md fdp (length (rows fdp)) = Some (md', e)"
        using pos Inr fd p r(1) by (subst clean_gps_loop.simps) simp
      moreover have "md' \<noteq> md" using r(2) shorter by auto
      ultimately show ?thesis by simp
    qed
  qed
qed

lemma reset_index_length:
  "reset_index md = Inr md0 \<Longrightarrow> length (rows md0) = length (rows md)"
  by (auto simp: reset_index_def Let_def split: if_splits)

lemma prepared_length:
  "(if index_name md \<noteq> None then reset_index md else Inr md) = Inr md0 \<Longrightarrow>
   length (rows md0) = length (rows md)"
  by (auto split: if_splits dest: reset_index_length)

lemma clean_gps_exit:
  assumes "clean_gps md f kw = Some (md', None)"
  shows "(\<exists>fdp'. filter_data md' f kw = Inr (fdp', 0)) \<and> length (rows md') \<le> length (rows md)"
proof (cases "if index_name md \<noteq> None then reset_index md else Inr md")
  case (Inl e)
  with assms show ?thesis by (simp add: clean_gps_def)
next
  case r: (Inr md0)
  then have len: "length (rows md0) = length (rows md)" by (rule prepared_length)
  show ?thesis
  proof (cases "filter_data md0 f kw")
    case (Inl e)
    with assms r show ?thesis by (simp add: clean_gps_def)
  next
    case fd: (Inr p)
    obtain fdp n where p: "p = (fdp, n)" by (cases p)
    with assms r fd have "clean_gps_loop f kw md0 fdp n = Some (md', None)"
      by (simp add: clean_gps_def)
    with loop_from_filter [of md0 f kw fdp n] fd p len show ?thesis by auto
  qed
qed

lemma clean_gps_total: "\<exists>r. clean_gps md f kw = Some r"
proof (cases "if index_name md \<noteq> None then reset_index md else Inr md")
  case (Inl e)
  then show ?thesis by (simp add: clean_gps_def)
next
  case r: (Inr md0)
  show ?thesis
  proof (cases "filter_data md0 f kw")
    case (Inl e)
    with r show ?thesis by (simp add: clean_gps_def)
  next
    case fd: (Inr p)
    obtain fdp n where p: "p = (fdp, n)" by (cases p)
    from loop_total [of f kw md0 fdp n] r fd p show ?thesis
      by (simp add: clean_gps_def)
  qed
qed

lemma drop_index_error: "drop_index md ls = Inl e \<Longrightarrow> e = KeyError"
  by (auto simp: drop_index_def split: if_splits)

text \<open>One pass through the body of the loop, when the selection is not empty.\<close>

lemma loop_step:
  assumes "0 < n" and "n = length (rows fdp)"
  shows "(drop_index md (map idx (rows fdp)) = Inl KeyError \<and>
          clean_gps_loop f kw md fdp n = Some (md, Some KeyError)) \<or>
         (\<exists>md1. drop_index md (map idx (rows fdp)) = Inr md1 \<and>
            length (rows md1) < length (rows md) \<and>
            clean_gps_loop f kw md fdp n =
              (case filter_data md1 f kw of
                 Inl e \<Rightarrow> Some (md1, Some e)
               | Inr (fdp1, n1) \<Rightarrow> clean_gps_loop f kw md1 fdp1 n1))"
proof (cases "drop_index md (map idx (rows fdp))")
  case (Inl e)
  then have e: "e = KeyError" by (rule drop_index_error)
  have "clean_gps_loop f kw md fdp n = Some (md, Some KeyError)"
    using assms(1) Inl e by (subst clean_gps_loop.simps) simp
  with Inl e show ?thesis by simp
next
  case (Inr md1)
  from assms have "map idx (rows fdp) \<noteq> []" by auto
  with Inr have shorter: "length (rows md1) < length (rows md)"
    by (rule drop_index_shrinks)
  have "clean_gps_loop f kw md fdp n =
      (case filter_data md1 f kw of
         Inl e \<Rightarrow> Some (md1, Some e)
       | Inr (fdp1, n1) \<Rightarrow> clean_gps_loop f kw md1 fdp1 n1)"
    using assms(1) Inr by (subst clean_gps_loop.simps) simp
  with Inr shorter show ?thesis by simp
qed

lemma loop_result_shrinks:
  assumes "rows fdp \<noteq> []"
    and "clean_gps_loop f kw md fdp (length (rows fdp)) = Some (md', e)"
  shows "length (rows md') < length (rows md) \<or> (md' = md \<and> e = Some KeyError)"
proof -
  from assms(1) have pos: "0 < length (rows fdp)" by simp
  from loop_step [OF pos refl, of md f kw]
  show ?thesis
  proof
    assume "drop_index md (map idx (rows fdp)) = Inl KeyError \<and>
          clean_gps_loop f kw md fdp (length (rows fdp)) = Some (md, Some KeyError)"
    with assms(2) show ?thesis by simp
  next
    assume "\<exists>md1. drop_index md (map idx (rows fdp)) = Inr md1 \<and>
            length (rows md1) < length (rows md) \<and>
            clean_gps_loop f kw md fdp (length (rows fdp)) =
              (case filter_data md1 f kw of
                 Inl e \<Rightarrow> Some (md1, Some e)
               | Inr (fdp1, n1) \<Rightarrow> clean_gps_loop f kw md1 fdp1 n1)"
    then obtain md1 where shorter: "length (rows md1) < length (rows md)"
      and step: "clean_gps_loop f kw md fdp (length (rows fdp)) =
              (case filter_data md1 f kw of
                 Inl e \<Rightarrow> Some (md1, Some e)
               | Inr (fdp1, n1) \<Rightarrow> clean_gps_loop f kw md1 fdp1 n1)"
      by blast
    show ?thesis
    proof (cases "filter_data md1 f kw")
      case (Inl err)
      with step assms(2) shorter show ?thesis by simp
    next
      case fd: (Inr p)
      obtain fdp1 n1 where p: "p = (fdp1, n1)" by (cases p)
      with step assms(2) fd have "clean_gps_loop f kw md1 fdp1 n1 = Some (md', e)" by simp
      with loop_from_filter [of md1 f kw fdp1 n1] fd p
      have "length (rows md') \<le> length (rows md1)" by auto
      with shorter show ?thesis by simp
    qed
  qed
qed

lemma ex_track_first_pass:
  "filter_data ex_track filter_single_by_max
     \<lparr>arg1 = Label DIST_TO_PREV, arg2 = Fin 10, outliers = False\<rparr> =
   Inr (mk_frame [mk_point 1 ''a'' 10 (Fin 5) (Fin 10) (Fin (1/2))], 1)"
  by (simp add: filter_data_def getcol_def mask_select_def ex_track_def mk_frame_def
      mk_point_def fl_le_def)

lemma ex_track_drop:
  "drop_index ex_track [1] =
   Inr (mk_frame [mk_point 0 ''a'' 0 NaN NaN NaN, mk_point 2 ''a'' 20 (Fin 20) (Fin 10) (Fin 2)])"
  by (simp add: drop_index_def ex_track_def mk_frame_def mk_point_def)

lemma ex_track_second_pass:
  "filter_data (mk_frame [mk_point 0 ''a'' 0 NaN NaN NaN, mk_point 2 ''a'' 20 (Fin 20) (Fin 10) (Fin 2)])
     filter_single_by_max \<lparr>arg1 = Label DIST_TO_PREV, arg2 = Fin 10, outliers = False\<rparr> =
   Inr (mk_frame [], 0)"
  by (simp add: filter_data_def getcol_def mask_select_def mk_frame_def mk_point_def fl_le_def)

lemma ex_track_clean:
  "clean_gps ex_track filter_single_by_max
     \<lparr>arg1 = Label DIST_TO_PREV, arg2 = Fin 10, outliers = False\<rparr> =
   Some (mk_frame [mk_point 0 ''a'' 0 NaN NaN NaN, mk_point 2 ''a'' 20 (Fin 20) (Fin 10) (Fin 2)], None)"
proof -
  have n: "index_name ex_track = None" by (simp add: ex_track_def mk_frame_def)
  have r: "rows (mk_frame [mk_point 1 ''a'' 10 (Fin 5) (Fin 10) (Fin (1/2))]) =
      [mk_point 1 ''a'' 10 (Fin 5) (Fin 10) (Fin (1/2))]" by (simp add: mk_frame_def)
  have i: "idx (mk_point 1 ''a'' 10 (Fin 5) (Fin 10) (Fin (1/2))) = 1" by (simp add: mk_point_def)
  show ?thesis
    unfolding clean_gps_def
    by (simp add: n ex_track_first_pass)
       (simp add: clean_gps_loop.simps r i ex_track_drop ex_track_second_pass)
qed

text \<open>
  C7. The convergence loop of \<^verbatim>\<open>_clean_gps\<close> ends for every frame, every filtering
  function and every \<^verbatim>\<open>kwargs\<close>: the call returns, and so does the loop started
  from any values of its variables. With zero rows to drop the loop stops at once
  and hands back the frame untouched. With a non-empty selection, one pass through
  the body either raises KeyError (a selected label is not in the frame) or goes on
  with the frame left by the drop, which has strictly fewer rows; so the frame the
  loop ends with has strictly fewer rows than the one it started with, and the loop
  hands back the frame it was given exactly when the selection is empty. When the
  call returns without an exception, the filtering function selects zero rows of
  the returned frame, which has no more rows than the given one.
\<close>

theorem clean_gps_terminates:
  "(\<exists>r. clean_gps move_data f kw = Some r) \<and>
   (\<exists>r. clean_gps_loop f kw move_data fdp n = Some r) \<and>
   clean_gps_loop f kw move_data fdp 0 = Some (move_data, None) \<and>
   (0 < n \<and> n = length (rows fdp) \<longrightarrow>
      (drop_index move_data (map idx (rows fdp)) = Inl KeyError \<and>
       clean_gps_loop f kw move_data fdp n = Some (move_data, Some KeyError)) \<or>
      (\<exists>md1. drop_index move_data (map idx (rows fdp)) = Inr md1 \<and>
         length (rows md1) < length (rows move_data) \<and>
         clean_gps_loop f kw move_data fdp n =
           (case filter_data md1 f kw of
              Inl e \<Rightarrow> Some (md1, Some e)
            | Inr (fdp1, n1) \<Rightarrow> clean_gps_loop f kw md1 fdp1 n1))) \<and>
   (\<forall>md' e. rows fdp \<noteq> [] \<and>
        clean_gps_loop f kw move_data fdp (length (rows fdp)) = Some (md', e) \<longrightarrow>
      length (rows md') < length (rows move_data) \<or> (md' = move_data \<and> e = Some KeyError)) \<and>
   (\<forall>md'. rows fdp \<noteq> [] \<and> drop_index move_data (map idx (rows fdp)) = Inr md' \<longrightarrow>
      length (rows md') < length (rows move_data)) \<and>
   (\<forall>md'. clean_gps move_data f kw = Some (md', None) \<longrightarrow>
      (\<exists>fdp'. filter_data md' f kw = Inr (fdp', 0)) \<and>
      length (rows md') \<le> length (rows move_data)) \<and>
   (clean_gps_loop f kw move_data fdp (length (rows fdp)) = Some (move_data, None) \<longleftrightarrow>
      rows fdp = [])"
proof -
  have a: "\<exists>r. clean_gps move_data f kw = Some r" by (rule clean_gps_total)
  have b: "\<exists>r. clean_gps_loop f kw move_data fdp n = Some r" by (rule loop_total)
  have z: "clean_gps_loop f kw move_data fdp 0 = Some (move_data, None)"
    by (subst clean_gps_loop.simps) simp
  have s: "0 < n \<and> n = length (rows fdp) \<longrightarrow>
      (drop_index move_data (map idx (rows fdp)) = Inl KeyError \<and>
       clean_gps_loop f kw move_data fdp n = Some (move_data, Some KeyError)) \<or>
      (\<exists>md1. drop_index move_data (map idx (rows fdp)) = Inr md1 \<and>
         length (rows md1) < length (rows move_data) \<and>
         clean_gps_loop f kw move_data fdp n =
           (case filter_data md1 f kw of
              Inl e \<Rightarrow> Some (md1, Some e)
            | Inr (fdp1, n1) \<Rightarrow> clean_gps_loop f kw md1 fdp1 n1))"
    using loop_step [of n fdp move_data f kw] by blast
  have t: "\<forall>md' e. rows fdp \<noteq> [] \<and>
        clean_gps_loop f kw move_data fdp (length (rows fdp)) = Some (md', e) \<longrightarrow>
      length (rows md') < length (rows move_data) \<or> (md' = move_data \<and> e = Some KeyError)"
    using loop_result_shrinks [of fdp f kw move_data] by blast
  have c: "\<forall>md'. rows fdp \<noteq> [] \<and> drop_index move_data (map idx (rows fdp)) = Inr md' \<longrightarrow>
      length (rows md') < length (rows move_data)"
    using drop_index_shrinks [of move_data "map idx (rows fdp)"] by simp
  have d: "\<forall>md'. clean_gps move_data f kw = Some (md', None) \<longrightarrow>
      (\<exists>fdp'. filter_data md' f kw = Inr (fdp', 0)) \<and>
      length (rows md') \<le> length (rows move_data)"
    using clean_gps_exit by blast
  have e: "clean_gps_loop f kw move_data fdp (length (rows fdp)) = Some (move_data, None) \<longleftrightarrow>
      rows fdp = []"
  proof
    assume "clean_gps_loop f kw move_data fdp (length (rows fdp)) = Some (move_data, None)"
    then show "rows fdp = []" using loop_progress [of fdp f kw move_data] by blast
  next
    assume "rows fdp = []"
    then show "clean_gps_loop f kw move_data fdp (length (rows fdp)) = Some (move_data, None)"
      by (subst clean_gps_loop.simps) simp
  qed
  from a b z s t c d e show ?thesis by blast
qed

theorem clean_gps_terminates_witness:
  "clean_gps_loop filter_single_by_max
     \<lparr>arg1 = Label DIST_TO_PREV, arg2 = Fin 10, outliers = False\<rparr> ex_track
     (mk_frame [mk_point 1 ''a'' 10 (Fin 5) (Fin 10) (Fin (1/2))]) 1 =
   Some (mk_frame [mk_point 0 ''a'' 0 NaN NaN NaN,
                   mk_point 2 ''a'' 20 (Fin 20) (Fin 10) (Fin 2)], None) \<and>
   length (rows (mk_frame [mk_point 0 ''a'' 0 NaN NaN NaN,
                           mk_point 2 ''a'' 20 (Fin 20) (Fin 10) (Fin 2)])) <
   length (rows ex_track) \<and>
   (\<exists>r. clean_gps ex_track filter_single_by_max
       \<lparr>arg1 = Label DIST_TO_PREV, arg2 = Fin 10, outliers = False\<rparr> = Some r) \<and>
   (\<exists>fdp'. filter_data (mk_frame [mk_point 0 ''a'' 0 NaN NaN NaN,
                                  mk_point 2 ''a'' 20 (Fin 20) (Fin 10) (Fin 2)])
        filter_single_by_max \<lparr>arg1 = Label DIST_TO_PREV, arg2 = Fin 10, outliers = False\<rparr> =
      Inr (fdp', 0))"
proof -
  let ?kw = "\<lparr>arg1 = Label DIST_TO_PREV, arg2 = Fin 10, outliers = False\<rparr>"
  let ?fdp = "mk_frame [mk_point 1 ''a'' 10 (Fin 5) (Fin 10) (Fin (1/2))]"
  let ?md' = "mk_frame [mk_point 0 ''a'' 0 NaN NaN NaN, mk_point 2 ''a'' 20 (Fin 20) (Fin 10) (Fin 2)]"
  have h0: "0 < (1::nat) \<and> 1 = length (rows ?fdp)" by (simp add: mk_frame_def)
  have h1: "drop_index ex_track (map idx (rows ?fdp)) = Inr ?md'"
    using ex_track_drop by (simp add: mk_frame_def mk_point_def)
  have h2: "clean_gps ex_track filter_single_by_max ?kw = Some (?md', None)"
    by (rule ex_track_clean)
  note first = clean_gps_terminates [of ex_track filter_single_by_max ?kw ?fdp 1]
  note second = clean_gps_terminates [of ?md' filter_single_by_max ?kw "mk_frame []" 0]
  from first h0 h1 have step:
    "length (rows ?md') < length (rows ex_track) \<and>
     clean_gps_loop filter_single_by_max ?kw ex_track ?fdp 1 =
       (case filter_data ?md' filter_single_by_max ?kw of
          Inl e \<Rightarrow> Some (?md', Some e)
        | Inr (fdp1, n1) \<Rightarrow> clean_gps_loop filter_single_by_max ?kw ?md' fdp1 n1)"
    by auto
  from second have stop:
    "clean_gps_loop filter_single_by_max ?kw ?md' (mk_frame []) 0 = Some (?md', None)"
    by blast
  from first have total: "\<exists>r. clean_gps ex_track filter_single_by_max ?kw = Some r"
    by blast
  from first h2 have exit: "\<exists>fdp'. filter_data ?md' filter_single_by_max ?kw = Inr (fdp', 0)"
    by blast
  from step stop total exit show ?thesis
    by (simp add: ex_track_second_pass)
qed

lemma mask_rows: "map fst (filter snd (zip xs (map h xs))) = filter h xs"
  by (induction xs) auto

lemma mask_select_map:
  "mask_select md (map h (rows md)) = md\<lparr>rows := filter h (rows md)\<rparr>"
  by (simp add: mask_select_def mask_rows)

lemma filter_single_by_max_rows:
  "c \<in> set (feats md) \<Longrightarrow>
   filter_single_by_max md (Label c) v = Inr (md\<lparr>rows := filter (\<lambda>r. fl_le (col c r) v) (rows md)\<rparr>)"
  using mask_select_map [of md "\<lambda>r. fl_le (col c r) v"]
  by (simp add: getcol_def comp_def)

lemma drop_selected:
  assumes "distinct (map idx xs)"
  shows "filter (\<lambda>r. idx r \<notin> set (map idx (filter P xs))) xs = filter (\<lambda>r. \<not> P r) xs"
proof (rule filter_cong [OF refl])
  fix r assume r: "r \<in> set xs"
  from assms have inj: "inj_on idx (set xs)" by (simp add: distinct_map)
  show "(idx r \<notin> set (map idx (filter P xs))) = (\<not> P r)"
    using r inj by (auto dest: inj_onD)
qed

lemma drop_index_selected:
  "distinct (map idx (rows md)) \<Longrightarrow>
   drop_index md (map idx (filter P (rows md))) = Inr (md\<lparr>rows := filter (\<lambda>r. \<not> P r) (rows md)\<rparr>)"
  using drop_selected [of "rows md" P]
  by (auto simp: drop_index_def list_all_iff)

text \<open>
  C2 (amended). For the max-threshold predicate, on a frame that has the feature
  column and whose index labels are distinct, an iteration selects exactly the rows
  where \<^verbatim>\<open>feature <= threshold\<close> holds and these are the rows it removes; the rows
  kept are the others (feature above the threshold, or NaN). As the features are
  never updated, the second pass selects nothing, so the call returns the frame
  without the rows where \<^verbatim>\<open>feature <= threshold\<close> held.
\<close>

theorem filter_single_by_max_drops:
  assumes "c \<in> set (feats md)" and "distinct (map idx (rows md))"
  shows "filter_data md filter_single_by_max \<lparr>arg1 = Label c, arg2 = v, outliers = False\<rparr> =
           Inr (md\<lparr>rows := filter (\<lambda>r. fl_le (col c r) v) (rows md)\<rparr>,
                length (filter (\<lambda>r. fl_le (col c r) v) (rows md))) \<and>
         drop_index md (map idx (filter (\<lambda>r. fl_le (col c r) v) (rows md))) =
           Inr (md\<lparr>rows := filter (\<lambda>r. \<not> fl_le (col c r) v) (rows md)\<rparr>) \<and>
         (index_name md = None \<longrightarrow>
            clean_gps md filter_single_by_max \<lparr>arg1 = Label c, arg2 = v, outliers = False\<rparr> =
              Some (md\<lparr>rows := filter (\<lambda>r. \<not> fl_le (col c r) v) (rows md)\<rparr>, None))"
proof -
  let ?kw = "\<lparr>arg1 = Label c, arg2 = v, outliers = False\<rparr>"
  let ?P = "\<lambda>r. fl_le (col c r) v"
  let ?md1 = "md\<lparr>rows := filter (\<lambda>r. \<not> ?P r) (rows md)\<rparr>"
  have fd: "filter_data md filter_single_by_max ?kw =
      Inr (md\<lparr>rows := filter ?P (rows md)\<rparr>, length (filter ?P (rows md)))"
    using assms(1) by (simp add: filter_data_def filter_single_by_max_rows del: filter_single_by_max.simps)
  have dr: "drop_index md (map idx (filter ?P (rows md))) = Inr ?md1"
    using assms(2) by (rule drop_index_selected)
  have fd1: "filter_data ?md1 filter_single_by_max ?kw = Inr (md\<lparr>rows := []\<rparr>, 0)"
    using assms(1) by (simp add: filter_data_def filter_single_by_max_rows del: filter_single_by_max.simps)
  have loop: "clean_gps_loop filter_single_by_max ?kw md (md\<lparr>rows := filter ?P (rows md)\<rparr>)
       (length (filter ?P (rows md))) = Some (?md1, None)"
  proof (cases "filter ?P (rows md) = []")
    case True
    then have "filter (\<lambda>r. \<not> ?P r) (rows md) = rows md"
      by (simp add: filter_empty_conv)
    then have "?md1 = md" by simp
    with True show ?thesis by (subst clean_gps_loop.simps) simp
  next
    case False
    have stop: "clean_gps_loop filter_single_by_max ?kw ?md1 (md\<lparr>rows := []\<rparr>) 0 = Some (?md1, None)"
      by (subst clean_gps_loop.simps) simp
    from False show ?thesis
      by (subst clean_gps_loop.simps) (simp add: dr fd1 stop)
  qed
  have cl: "index_name md = None \<longrightarrow> clean_gps md filter_single_by_max ?kw = Some (?md1, None)"
    by (simp add: clean_gps_def fd loop)
  from fd dr cl show ?thesis by blast
qed


theorem filter_single_by_max_drops_witness:
  "clean_gps ex_track filter_single_by_max
     \<lparr>arg1 = Label DIST_TO_PREV, arg2 = Fin 10, outliers = False\<rparr> =
   Some (mk_frame [mk_point 0 ''a'' 0 NaN NaN NaN,
                   mk_point 2 ''a'' 20 (Fin 20) (Fin 10) (Fin 2)], None) \<and>
   drop_index ex_track
     (map idx (filter (\<lambda>r. fl_le (col DIST_TO_PREV r) (Fin 10)) (rows ex_track))) =
   Inr (mk_frame [mk_point 0 ''a'' 0 NaN NaN NaN,
                  mk_point 2 ''a'' 20 (Fin 20) (Fin 10) (Fin 2)])"
proof -
  have h1: "DIST_TO_PREV \<in> set (feats ex_track)"
    by (simp add: ex_track_def mk_frame_def)
  have h2: "distinct (map idx (rows ex_track))"
    by (simp add: ex_track_def mk_frame_def mk_point_def)
  have h3: "index_name ex_track = None"
    by (simp add: ex_track_def mk_frame_def)
  have kept: "ex_track\<lparr>rows := filter (\<lambda>r. \<not> fl_le (col DIST_TO_PREV r) (Fin 10)) (rows ex_track)\<rparr> =
     mk_frame [mk_point 0 ''a'' 0 NaN NaN NaN, mk_point 2 ''a'' 20 (Fin 20) (Fin 10) (Fin 2)]"
    by (simp add: ex_track_def mk_frame_def mk_point_def fl_le_def)
  from filter_single_by_max_drops [OF h1 h2, of "Fin 10"] h3
  show ?thesis unfolding kept by blast
qed

text \<open>
  C2 as stated fails: with distances NaN, 5, 20 and threshold 10 the predicate
  selects the second row (5 \<open>\<le>\<close> 10), and the call returns the first and third rows,
  not the second.
\<close>

theorem threshold_kept_counterexample:
  "filter_single_by_max ex_track (Label DIST_TO_PREV) (Fin 10) =
     Inr (mk_frame [mk_point 1 ''a'' 10 (Fin 5) (Fin 10) (Fin (1/2))]) \<and>
   clean_gps_nearby_points_by_distances ex_provider ex_track (Fin 10) False =
     Some (ex_track,
           Inr (Some (mk_frame [mk_point 0 ''a'' 0 NaN NaN NaN,
                                mk_point 2 ''a'' 20 (Fin 20) (Fin 10) (Fin 2)]))) \<and>
   clean_gps_nearby_points_by_distances ex_provider ex_track (Fin 10) False \<noteq>
     Some (ex_track, Inr (Some (mk_frame [mk_point 1 ''a'' 10 (Fin 5) (Fin 10) (Fin (1/2))])))"
proof -
  have sel: "filter_single_by_max ex_track (Label DIST_TO_PREV) (Fin 10) =
     Inr (mk_frame [mk_point 1 ''a'' 10 (Fin 5) (Fin 10) (Fin (1/2))])"
    by (simp add: getcol_def mask_select_def ex_track_def mk_frame_def mk_point_def fl_le_def)
  have h: "DIST_TO_PREV \<in> set (feats ex_track)"
    by (simp add: ex_track_def mk_frame_def)
  have res: "clean_gps_nearby_points_by_distances ex_provider ex_track (Fin 10) False =
     Some (ex_track,
           Inr (Some (mk_frame [mk_point 0 ''a'' 0 NaN NaN NaN,
                                mk_point 2 ''a'' 20 (Fin 20) (Fin 10) (Fin 2)])))"
    by (simp add: clean_gps_nearby_points_by_distances_def h ex_track_clean finish_def)
  have ne: "mk_frame [mk_point 0 ''a'' 0 NaN NaN NaN, mk_point 2 ''a'' 20 (Fin 20) (Fin 10) (Fin 2)] \<noteq>
      mk_frame [mk_point 1 ''a'' 10 (Fin 5) (Fin 10) (Fin (1/2))]"
    by (simp add: mk_frame_def)
  from sel res ne show ?thesis by simp
qed

text \<open>
  What the mask of \<^verbatim>\<open>_filter_speed_max_radius\<close> says of row \<open>i\<close>: its own value, or
  the value of row \<open>i - 1\<close>, exceeds the bound (NaN counting as 0).
\<close>

lemma shift1_nth:
  "i < length xs \<Longrightarrow> shift1 xs ! i = (if i = 0 then NaN else xs ! (i - 1))"
  by (simp add: shift1_def nth_Cons')

lemma speed_mask_nth:
  "i < length xs \<Longrightarrow>
   map2 (\<lambda>p x. fl_gt (nan_to_num p) v \<or> fl_gt (nan_to_num x) v) (shift1 xs) xs ! i =
   (fl_gt (nan_to_num (if i = 0 then NaN else xs ! (i - 1))) v \<or> fl_gt (nan_to_num (xs ! i)) v)"
  using shift1_nth [of i xs] by (simp add: shift1_def)

lemma ex_fast_flags:
  "filter_speed_max_radius ex_fast (Label SPEED_TO_PREV) (Fin 50) =
     Inr (mk_frame [mk_point 1 ''a'' 10 (Fin 600) (Fin 10) (Fin 60),
                    mk_point 2 ''a'' 20 (Fin 100) (Fin 10) (Fin 10)])"
  by (simp add: getcol_def mask_select_def shift1_def fl_gt_def ex_fast_def mk_frame_def
      mk_point_def)

lemma ex_fast_clean:
  "clean_gps ex_fast filter_speed_max_radius
     \<lparr>arg1 = Label SPEED_TO_PREV, arg2 = Fin 50, outliers = False\<rparr> =
   Some (mk_frame [mk_point 0 ''a'' 0 NaN NaN NaN], None)"
proof -
  have n: "index_name ex_fast = None" by (simp add: ex_fast_def mk_frame_def)
  have d: "drop_index ex_fast [1, 2] = Inr (mk_frame [mk_point 0 ''a'' 0 NaN NaN NaN])"
    by (simp add: drop_index_def ex_fast_def mk_frame_def mk_point_def)
  have f2: "filter_speed_max_radius (mk_frame [mk_point 0 ''a'' 0 NaN NaN NaN])
       (Label SPEED_TO_PREV) (Fin 50) = Inr (mk_frame [])"
    by (simp add: getcol_def mask_select_def shift1_def fl_gt_def mk_frame_def mk_point_def)
  have r: "map idx (rows (mk_frame [mk_point 1 ''a'' 10 (Fin 600) (Fin 10) (Fin 60),
                    mk_point 2 ''a'' 20 (Fin 100) (Fin 10) (Fin 10)])) = [1, 2]"
    "length (rows (mk_frame [mk_point 1 ''a'' 10 (Fin 600) (Fin 10) (Fin 60),
                    mk_point 2 ''a'' 20 (Fin 100) (Fin 10) (Fin 10)])) = 2"
    "length (rows (mk_frame [])) = 0"
    by (simp_all add: mk_frame_def mk_point_def)
  show ?thesis
    unfolding clean_gps_def Let_def filter_data_def
    by (simp add: n ex_fast_flags r del: filter_speed_max_radius.simps)
       (simp add: clean_gps_loop.simps d filter_data_def f2 r del: filter_speed_max_radius.simps)
qed

text \<open>
  C4. On the trajectory \<open>[A, B, C]\<close> with speed 60 from A to B, 10 from B to C and
  a maximum of 50, the speed-max-radius predicate flags B and C and leaves A:
  \<^verbatim>\<open>shift(1)\<close> brings to each row the speed of the row before it, so C is flagged
  for B's speed, and A, whose following row has the excessive speed, is not. The
  call removes B and C and returns A alone.
\<close>

theorem speed_max_radius_flags_previous:
  "filter_speed_max_radius ex_fast (Label SPEED_TO_PREV) (Fin 50) =
     Inr (mk_frame [mk_point 1 ''a'' 10 (Fin 600) (Fin 10) (Fin 60),
                    mk_point 2 ''a'' 20 (Fin 100) (Fin 10) (Fin 10)]) \<and>
   clean_gps_speed_max_radius ex_provider ex_fast (Fin 50) False =
     Some (ex_fast, Inr (Some (mk_frame [mk_point 0 ''a'' 0 NaN NaN NaN])))"
proof -
  have h: "SPEED_TO_PREV \<in> set (feats ex_fast)"
    by (simp add: ex_fast_def mk_frame_def)
  show ?thesis
    by (simp add: ex_fast_flags clean_gps_speed_max_radius_def h ex_fast_clean finish_def
        del: filter_speed_max_radius.simps)
qed

text \<open>
  The engine only removes rows: every row of the frame \<^verbatim>\<open>_clean_gps\<close> leaves
  behind is a row of the frame it was given, with the feature values it had. (A
  frame with a named index is first relabelled, which changes index labels only.)
\<close>

lemma drop_index_subset: "drop_index md ls = Inr md' \<Longrightarrow> set (rows md') \<subseteq> set (rows md)"
  by (auto simp: drop_index_def split: if_splits)

lemma loop_rows_from_filter:
  "filter_data md f kw = Inr (fdp, n) \<Longrightarrow> clean_gps_loop f kw md fdp n = Some (md', e) \<Longrightarrow>
   set (rows md') \<subseteq> set (rows md)"
proof (induction md arbitrary: fdp n rule: measure_induct_rule [where f = "\<lambda>md. length (rows md)"])
  case (less md)
  show ?case
  proof (cases "0 < n")
    case False
    with less.prems(2) have "md' = md"
      by (subst (asm) clean_gps_loop.simps) simp
    then show ?thesis by simp
  next
    case True
    with less.prems(1) have ne: "map idx (rows fdp) \<noteq> []"
      by (auto dest: filter_data_count)
    show ?thesis
    proof (cases "drop_index md (map idx (rows fdp))")
      case (Inl err)
      with True less.prems(2) have "md' = md"
        by (subst (asm) clean_gps_loop.simps) simp
      then show ?thesis by simp
    next
      case (Inr md1)
      then have shorter: "length (rows md1) < length (rows md)"
        using ne by (rule drop_index_shrinks)
      from Inr have sub: "set (rows md1) \<subseteq> set (rows md)"
        by (rule drop_index_subset)
      show ?thesis
      proof (cases "filter_data md1 f kw")
        case (Inl err)
        with True Inr less.prems(2) have "md' = md1"
          by (subst (asm) clean_gps_loop.simps) simp
        with sub show ?thesis by simp
      next
        case fd: (Inr p)
        obtain fdp1 n1 where p: "p = (fdp1, n1)" by (cases p)
        from True Inr fd p less.prems(2) have "clean_gps_loop f kw md1 fdp1 n1 = Some (md', e)"
          by (subst (asm) clean_gps_loop.simps) simp
        from less.IH [OF shorter _ this] fd p have "set (rows md') \<subseteq> set (rows md1)"
          by simp
        with sub show ?thesis by blast
      qed
    qed
  qed
qed

lemma clean_gps_rows_subset:
  assumes "index_name md = None" and "clean_gps md f kw = Some (md', e)"
  shows "set (rows md') \<subseteq> set (rows md)"
proof (cases "filter_data md f kw")
  case (Inl err)
  with assms show ?thesis by (simp add: clean_gps_def)
next
  case fd: (Inr p)
  obtain fdp n where p: "p = (fdp, n)" by (cases p)
  with assms fd have "clean_gps_loop f kw md fdp n = Some (md', e)"
    by (simp add: clean_gps_def)
  with fd p show ?thesis using loop_rows_from_filter by blast
qed

lemma ex_jump_clean:
  "clean_gps ex_jump filter_speed_max_radius
     \<lparr>arg1 = Label SPEED_TO_PREV, arg2 = Fin 50, outliers = False\<rparr> =
   Some (ex_jump_cleaned, None)"
proof -
  let ?sel = "mk_frame [mk_point 2 ''a'' 20 (Fin 600) (Fin 10) (Fin 60),
                        mk_point 3 ''a'' 30 (Fin 100) (Fin 10) (Fin 10)]"
  have n: "index_name ex_jump = None" by (simp add: ex_jump_def mk_frame_def)
  have f1: "filter_speed_max_radius ex_jump (Label SPEED_TO_PREV) (Fin 50) = Inr ?sel"
    by (simp add: getcol_def mask_select_def shift1_def fl_gt_def ex_jump_def mk_frame_def
        mk_point_def)
  have d: "drop_index ex_jump [2, 3] = Inr ex_jump_cleaned"
    by (simp add: drop_index_def ex_jump_def ex_jump_cleaned_def mk_frame_def mk_point_def)
  have f2: "filter_speed_max_radius ex_jump_cleaned (Label SPEED_TO_PREV) (Fin 50) =
      Inr (mk_frame [])"
    by (simp add: getcol_def mask_select_def shift1_def fl_gt_def ex_jump_cleaned_def
        mk_frame_def mk_point_def)
  have r: "map idx (rows ?sel) = [2, 3]" "length (rows ?sel) = 2"
    "length (rows (mk_frame [])) = 0"
    by (simp_all add: mk_frame_def mk_point_def)
  show ?thesis
    unfolding clean_gps_def Let_def filter_data_def
    by (simp add: n f1 r del: filter_speed_max_radius.simps)
       (simp add: clean_gps_loop.simps d filter_data_def f2 r del: filter_speed_max_radius.simps)
qed

text \<open>
  C1. \<^verbatim>\<open>_clean_gps\<close> never calls a feature generator after removing rows, so the
  rows that stay keep the features computed for their former neighbours. On five
  points ten seconds apart, whose time features are consistent, with speeds
  NaN, 10, 60, 10, 10 and a maximum of 50, \<^verbatim>\<open>clean_gps_speed_max_radius\<close> removes
  the third and fourth points; the fifth point still says 10 s to its previous point,
  while the point now before it is 30 s earlier. The returned frame is not
  feature-consistent.
\<close>

theorem clean_gps_keeps_stale_features:
  "time_features_consistent ex_jump \<and>
   clean_gps_speed_max_radius ex_provider ex_jump (Fin 50) False =
     Some (ex_jump, Inr (Some ex_jump_cleaned)) \<and>
   \<not> time_features_consistent ex_jump_cleaned \<and>
   time_to_prev (rows ex_jump_cleaned ! 2) = Fin 10 \<and>
   datetime (rows ex_jump_cleaned ! 2) - datetime (rows ex_jump_cleaned ! 1) = 30"
proof -
  have h: "SPEED_TO_PREV \<in> set (feats ex_jump)"
    by (simp add: ex_jump_def mk_frame_def)
  have a: "time_features_consistent ex_jump"
    by (simp add: time_features_consistent_def ex_jump_def mk_frame_def mk_point_def)
  have b: "clean_gps_speed_max_radius ex_provider ex_jump (Fin 50) False =
     Some (ex_jump, Inr (Some ex_jump_cleaned))"
    by (simp add: clean_gps_speed_max_radius_def h ex_jump_clean finish_def)
  have c: "\<not> time_features_consistent ex_jump_cleaned"
    by (simp add: time_features_consistent_def ex_jump_cleaned_def mk_frame_def mk_point_def)
  have d: "time_to_prev (rows ex_jump_cleaned ! 2) = Fin 10 \<and>
     datetime (rows ex_jump_cleaned ! 2) - datetime (rows ex_jump_cleaned ! 1) = 30"
    by (simp add: ex_jump_cleaned_def mk_frame_def mk_point_def)
  from a b c d show ?thesis by simp
qed

lemma fst_filter_pairs:
  "map fst (filter (\<lambda>(i, s). Q s) (map (\<lambda>i. (i, g i)) xs)) = filter (\<lambda>i. Q (g i)) xs"
  by (induction xs) auto

lemma col_time_to_prev: "col TIME_TO_PREV = time_to_prev"
  by (rule ext) simp

text \<open>
  C9 (amended). \<^verbatim>\<open>clean_id_by_time_max\<close>, on a frame that has the time feature
  (from the start, or after the generator was called) and whose index labels are
  distinct, returns the frame without the rows of the ids whose summed
  \<^verbatim>\<open>time_to_prev\<close>, as pandas sums the group, is strictly below \<^verbatim>\<open>time_max\<close>, and
  with every row of every other id: a group is removed or kept as a whole, and a
  sum of at least \<^verbatim>\<open>time_max\<close> is never strictly below it.
\<close>

theorem clean_id_by_time_max_groups:
  assumes "md = (if TIME_TO_PREV \<notin> set (feats md0)
                 then generate_dist_time_speed_features P md0 else md0)"
    and "TIME_TO_PREV \<in> set (feats md)"
    and "distinct (map idx (rows md))"
  shows "clean_id_by_time_max P md0 time_max inplace =
           finish inplace md0
             (md\<lparr>rows := filter (\<lambda>r. \<not> fl_lt (column_sum P (map time_to_prev
                                (filter (\<lambda>q. traj_id q = traj_id r) (rows md))))
                              (Fin time_max)) (rows md)\<rparr>) None \<and>
         (\<forall>s. fl_le (Fin time_max) s \<longrightarrow> \<not> fl_lt s (Fin time_max))"
proof -
  define gs where
    "gs i = column_sum P (map time_to_prev (filter (\<lambda>q. traj_id q = i) (rows md)))" for i
  define ids where "ids = unique (map traj_id (rows md))"
  define todrop where "todrop = filter (\<lambda>(i, s). fl_lt s (Fin time_max)) (map (\<lambda>i. (i, gs i)) ids)"
  let ?D = "\<lambda>r. traj_id r \<in> set (map fst todrop)"
  have g: "groupby_sum P md TIME_TO_PREV = Inr (map (\<lambda>i. (i, gs i)) ids)"
    using assms(2) by (simp add: groupby_sum_def gs_def ids_def col_time_to_prev)
  have D: "?D r \<longleftrightarrow> fl_lt (gs (traj_id r)) (Fin time_max)" if "r \<in> set (rows md)" for r
  proof -
    from that have "traj_id r \<in> set ids" by (simp add: ids_def set_unique)
    then show ?thesis by (simp add: todrop_def fst_filter_pairs)
  qed
  have keep: "filter (\<lambda>r. \<not> ?D r) (rows md) =
      filter (\<lambda>r. \<not> fl_lt (gs (traj_id r)) (Fin time_max)) (rows md)"
  proof (rule filter_cong [OF refl])
    fix r assume "r \<in> set (rows md)"
    then show "(\<not> ?D r) = (\<not> fl_lt (gs (traj_id r)) (Fin time_max))"
      using D by blast
  qed
  have main: "clean_id_by_time_max P md0 time_max inplace =
      finish inplace md0 (md\<lparr>rows := filter (\<lambda>r. \<not> ?D r) (rows md)\<rparr>) None"
  proof (cases "todrop = []")
    case True
    then have "filter (\<lambda>r. \<not> ?D r) (rows md) = rows md" by simp
    then have "md\<lparr>rows := filter (\<lambda>r. \<not> ?D r) (rows md)\<rparr> = md" by simp
    then show ?thesis
      using True g assms(1)
      by (simp add: clean_id_by_time_max_def Let_def todrop_def [symmetric])
  next
    case False
    have "drop_index md (map idx (rows (mask_select md (map ?D (rows md))))) =
        Inr (md\<lparr>rows := filter (\<lambda>r. \<not> ?D r) (rows md)\<rparr>)"
      using drop_index_selected [OF assms(3), of ?D] by (simp add: mask_select_map)
    then show ?thesis
      using False g assms(1)
      by (simp add: clean_id_by_time_max_def Let_def todrop_def [symmetric])
  qed
  have le: "\<forall>s. fl_le (Fin time_max) s \<longrightarrow> \<not> fl_lt s (Fin time_max)"
    by (simp add: fl_le_def)
  from main keep le show ?thesis by (simp add: gs_def)
qed

theorem clean_id_by_time_max_groups_witness:
  "clean_id_by_time_max ex_provider ex_times 3600 False =
     (ex_times,
      Inr (Some (mk_frame [mk_point 1 ''v'' 0 NaN NaN NaN,
                           mk_point 3 ''v'' 3000 (Fin 5) (Fin 3000) (Fin (1/600)),
                           mk_point 5 ''v'' 5000 (Fin 5) (Fin 2000) (Fin (1/400))])))"
proof -
  have h1: "ex_times = (if TIME_TO_PREV \<notin> set (feats ex_times)
                 then generate_dist_time_speed_features ex_provider ex_times else ex_times)"
    by (simp add: ex_times_def mk_frame_def)
  have h2: "TIME_TO_PREV \<in> set (feats ex_times)"
    by (simp add: ex_times_def mk_frame_def)
  have h3: "distinct (map idx (rows ex_times))"
    by (simp add: ex_times_def mk_frame_def mk_point_def)
  have kept: "ex_times\<lparr>rows := filter (\<lambda>r. \<not> fl_lt (column_sum ex_provider (map time_to_prev
                 (filter (\<lambda>q. traj_id q = traj_id r) (rows ex_times)))) (Fin 3600))
                 (rows ex_times)\<rparr> =
     mk_frame [mk_point 1 ''v'' 0 NaN NaN NaN,
               mk_point 3 ''v'' 3000 (Fin 5) (Fin 3000) (Fin (1/600)),
               mk_point 5 ''v'' 5000 (Fin 5) (Fin 2000) (Fin (1/400))]"
    by (simp add: ex_times_def mk_frame_def mk_point_def ex_provider_def ex_column_sum_def)
  from clean_id_by_time_max_groups [OF h1 h2 h3, of 3600 False]
  show ?thesis unfolding kept by (simp add: finish_def)
qed

text \<open>
  C9 as stated fails on a frame whose index labels repeat: \<^verbatim>\<open>drop\<close> removes rows by
  label. With the labels 0, 1, 0, 1, the trajectory \<open>u\<close> (10 s in all, below 3600)
  is selected, its labels 0 and 1 are dropped, and the two rows of \<open>v\<close>, whose
  times NaN and 5000 sum to 5000, not below 3600, go with them: the whole frame is
  removed.
\<close>

theorem clean_id_by_time_max_counterexample:
  "clean_id_by_time_max ex_provider ex_dup_labels 3600 False =
     (ex_dup_labels, Inr (Some (mk_frame []))) \<and>
   column_sum ex_provider [NaN, Fin 5000] = Fin 5000 \<and>
   \<not> fl_lt (Fin 5000) (Fin 3600) \<and>
   mk_point 1 ''v'' 5000 (Fin 5) (Fin 5000) (Fin (1/1000)) \<in> set (rows ex_dup_labels)"
  by (simp add: clean_id_by_time_max_def groupby_sum_def mask_select_def drop_index_def
      finish_def ex_provider_def ex_column_sum_def ex_dup_labels_def mk_frame_def mk_point_def)

end
